theory Spec2Isabelle
  imports Complex_Main
begin

section \<open>The coffee market simulator (src/simulation/market_simulator.py)\<close>

text \<open>
  A shallow embedding of \<^verbatim>\<open>CoffeeMarketSimulator\<close>: the simulator object is a record
  that every method takes and returns, an exception is a value returned beside the
  state the method had reached when it was raised (Python keeps the mutations made
  before a raise), and the library calls the class makes (the \<^verbatim>\<open>random\<close> module,
  \<^verbatim>\<open>datetime\<close> parsing and formatting) are taken from an environment record.

  Python floats are idealised as reals; \<^verbatim>\<open>int\<close> is unbounded, as in Python.
\<close>

subsection \<open>Exceptions\<close>

datatype error = KeyError string | ValueError | TypeError

subsection \<open>Dates\<close>

text \<open>
  A \<^verbatim>\<open>datetime\<close> is a count of microseconds and the flag that tells an aware value
  (one with a UTC offset) from a naive one. The range limit of Python's datetime
  (years 1 to 9999) is not modelled. A \<^verbatim>\<open>timedelta\<close> is a count of microseconds.
\<close>

record datetime =
  micros :: int
  aware :: bool

definition day_micros :: int where
  "day_micros = 86400000000"

definition add_days :: "datetime \<Rightarrow> int \<Rightarrow> datetime" where
  \<comment> \<open>\<^verbatim>\<open>d + timedelta(days=k)\<close>\<close>
  "add_days d k = d\<lparr>micros := micros d + k * day_micros\<rparr>"

definition days_between :: "datetime \<Rightarrow> datetime \<Rightarrow> error + int" where
  \<comment> \<open>\<^verbatim>\<open>(a - b).days\<close>: subtracting a naive from an aware datetime (or the reverse) raises
      TypeError; \<^verbatim>\<open>.days\<close> of a timedelta is the floor of its length in days.\<close>
  "days_between a b =
     (if aware a \<noteq> aware b then Inl TypeError
      else Inr ((micros a - micros b) div day_micros))"

subsection \<open>The environment: library calls\<close>

text \<open>
  \<^item> \<open>fromisoformat\<close> is \<^verbatim>\<open>datetime.fromisoformat\<close>, \<open>strptime_ymd\<close> is
    \<^verbatim>\<open>datetime.strptime(_, "%Y-%m-%d")\<close>; \<open>None\<close> stands for the ValueError either raises
    on a string it does not accept.
  \<^item> \<open>isoformat\<close> is \<^verbatim>\<open>datetime.isoformat\<close>, \<open>strftime_ymd\<close> is
    \<^verbatim>\<open>datetime.strftime("%Y-%m-%d")\<close>.
  \<^item> \<open>now_stamp\<close> is \<^verbatim>\<open>datetime.now().strftime('%Y%m%d%H%M%S')\<close>, the wall clock read
    when a contract is synthesised.
  \<^item> \<open>bits\<close> is the random generator: the \<open>i\<close>-th call into the \<^verbatim>\<open>random\<close> module
    gets the 53-bit integer \<open>bits i mod 2^53\<close>.
\<close>

record env =
  fromisoformat :: "string \<Rightarrow> datetime option"
  strptime_ymd :: "string \<Rightarrow> datetime option"
  isoformat :: "datetime \<Rightarrow> string"
  strftime_ymd :: "datetime \<Rightarrow> string"
  now_stamp :: string
  bits :: "nat \<Rightarrow> nat"

subsection \<open>The random module\<close>

definition py_random :: "env \<Rightarrow> nat \<Rightarrow> real" where
  \<comment> \<open>\<^verbatim>\<open>random.random()\<close>: a multiple of \<open>2^-53\<close> in \<open>[0, 1)\<close>\<close>
  "py_random e i = real (bits e i mod 2 ^ 53) / 2 ^ 53"

definition uniform :: "env \<Rightarrow> real \<Rightarrow> real \<Rightarrow> nat \<Rightarrow> real" where
  \<comment> \<open>\<^verbatim>\<open>random.uniform(a, b)\<close> is \<^verbatim>\<open>a + (b - a) * random()\<close>\<close>
  "uniform e a b i = a + (b - a) * py_random e i"

definition randbelow :: "env \<Rightarrow> nat \<Rightarrow> nat \<Rightarrow> nat" where
  \<comment> \<open>a number below \<open>n\<close>, from one draw\<close>
  "randbelow e n i = nat \<lfloor>py_random e i * real n\<rfloor>"

definition randint :: "env \<Rightarrow> int \<Rightarrow> int \<Rightarrow> nat \<Rightarrow> int" where
  \<comment> \<open>\<^verbatim>\<open>random.randint(a, b)\<close> for \<open>a \<le> b\<close>: an integer of \<open>[a, b]\<close>, both ends included\<close>
  "randint e a b i = a + int (randbelow e (nat (b - a + 1)) i)"

definition choice :: "env \<Rightarrow> 'a list \<Rightarrow> nat \<Rightarrow> 'a" where
  \<comment> \<open>\<^verbatim>\<open>random.choice(xs)\<close> for a non-empty \<open>xs\<close>\<close>
  "choice e xs i = xs ! randbelow e (length xs) i"

subsection \<open>Built-in functions\<close>

definition round_half_even :: "real \<Rightarrow> int" where
  "round_half_even x =
     (let f = \<lfloor>x\<rfloor>; r = x - of_int f
      in if r < 1 / 2 then f
         else if 1 / 2 < r then f + 1
         else if even f then f else f + 1)"

definition py_round :: "real \<Rightarrow> nat \<Rightarrow> real" where
  \<comment> \<open>\<^verbatim>\<open>round(x, nd)\<close>: to \<open>nd\<close> decimals, ties to even\<close>
  "py_round x nd = of_int (round_half_even (x * 10 ^ nd)) / 10 ^ nd"

definition py_int :: "real \<Rightarrow> int" where
  \<comment> \<open>\<^verbatim>\<open>int(x)\<close> truncates towards zero\<close>
  "py_int x = (if 0 \<le> x then \<lfloor>x\<rfloor> else \<lceil>x\<rceil>)"

definition last_n :: "nat \<Rightarrow> 'a list \<Rightarrow> 'a list" where
  \<comment> \<open>the slice \<^verbatim>\<open>xs[-n:]\<close> for \<open>n > 0\<close>\<close>
  "last_n n xs = drop (length xs - n) xs"

subsection \<open>The data\<close>

text \<open>
  The simulator's dictionaries have fixed keys and become records. A key whose absence
  the code provides for (\<^verbatim>\<open>"k" in d\<close>, \<^verbatim>\<open>d.get("k", default)\<close>) is an optional
  field, and reading it with \<^verbatim>\<open>d["k"]\<close> where it is absent raises KeyError. Keys no
  modelled method reads or writes are left out.
\<close>

record supplier =
  s_id :: string
  s_name :: string
  region :: string
  bean_types :: "string list option"
  certifications :: "string list"
  quality_score :: "real option"
  capacity_kg_per_year :: int
  reliability_score :: real
  years_in_business :: int
  sustainability_score :: real

record contract =
  c_id :: string
  c_supplier_id :: string
  c_supplier_name :: string
  c_status :: string
  start_date :: string
  end_date :: string
  price_per_pound :: real
  min_lbs :: int
  max_lbs :: int
  c_bean_types :: "string list"
  payment_terms :: string
  delivery_terms :: string
  quality_requirements :: string
  sustainability_requirements :: string

record order =
  o_id :: string
  o_status :: string
  expected_delivery :: "string option"
  expected_delivery_date :: "string option"

record factor =
  f_name :: string
  f_status :: string
  f_impact :: string
  f_details :: string

record market =
  m_date :: string
  average_price :: real
  price_trend :: string
  price_history :: "(string \<times> real) list"
  regional_prices :: "(string \<times> real) list"
  bean_prices :: "(string \<times> real) list"
  market_factors :: "factor list"
  short_term :: string
  long_term :: string

text \<open>The change-log: one list per collection, and the market's entry (empty or one).\<close>

record supplier_change =
  sc_id :: string
  sc_name :: string
  update_type :: string
  old_value :: "real option"
  new_value :: "real option"

record contract_change =
  cc_id :: string
  cc_action :: string
  cc_supplier :: string

datatype order_change =
  Transition string string string "int option"
    \<comment> \<open>id, old\_status, new\_status and, on a delay, delay\_days\<close>
| Update_delivery string string string
    \<comment> \<open>order\_id, old\_delivery, new\_delivery\<close>

record market_change =
  new_price :: real
  old_price :: real
  change_pct :: real

record changes =
  ch_suppliers :: "supplier_change list"
  ch_contracts :: "contract_change list"
  ch_orders :: "order_change list"
  ch_market_conditions :: "market_change option"

definition no_changes :: changes where
  "no_changes = \<lparr>ch_suppliers = [], ch_contracts = [], ch_orders = [],
     ch_market_conditions = None\<rparr>"

text \<open>
  The simulator object. \<open>drawn\<close> counts the calls made into the \<^verbatim>\<open>random\<close> module so
  far (the module's generator is global state of the process).
\<close>

record sim =
  suppliers :: "supplier list"
  contracts :: "contract list"
  orders :: "order list"
  market_conditions :: market
  simulation_date :: datetime
  simulation_step :: int
  changes :: changes
  drawn :: nat

subsection \<open>Running a method: the state reached and the exception raised, if any\<close>

type_synonym outcome = "sim \<times> error option"

definition and_then :: "outcome \<Rightarrow> (sim \<Rightarrow> outcome) \<Rightarrow> outcome" where
  \<comment> \<open>the next statement runs only when the previous one did not raise\<close>
  "and_then r f = (case r of (s, None) \<Rightarrow> f s | (s, Some err) \<Rightarrow> (s, Some err))"

subsection \<open>\<^verbatim>\<open>_update_market_conditions\<close>\<close>

definition draw_change_pct :: "env \<Rightarrow> string \<Rightarrow> nat \<Rightarrow> real" where
  "draw_change_pct e trend i =
     (if trend = ''Rising'' then uniform e (- 0.01) 0.03 i
      else if trend = ''Falling'' then uniform e (- 0.03) 0.01 i
      else uniform e (- 0.015) 0.015 i)"

definition clamp_price :: "real \<Rightarrow> real" where
  \<comment> \<open>\<^verbatim>\<open>max(3.0, min(10.0, new_price))\<close>\<close>
  "clamp_price p = max 3 (min 10 p)"

definition push_history :: "(string \<times> real) list \<Rightarrow> string \<times> real \<Rightarrow> (string \<times> real) list" where
  \<comment> \<open>append the point, then keep the last 30 when there are more\<close>
  "push_history h pt =
     (let h1 = h @ [pt] in if 30 < length h1 then last_n 30 h1 else h1)"

definition recompute_trend :: "(string \<times> real) list \<Rightarrow> string \<Rightarrow> string" where
  "recompute_trend history trend =
     (if 5 \<le> length history then
        (let recent_prices = map snd (last_n 5 history);
             newest = recent_prices ! (length recent_prices - 1);
             oldest = recent_prices ! 0
         in if oldest * 1.02 < newest then ''Rising''
            else if newest < oldest * 0.98 then ''Falling''
            else ''Stable'')
      else trend)"

fun vary_prices :: "env \<Rightarrow> real \<Rightarrow> (string \<times> real) list \<Rightarrow> nat \<Rightarrow> (string \<times> real) list \<times> nat" where
  \<comment> \<open>the loops over \<^verbatim>\<open>regional_prices\<close> and \<^verbatim>\<open>bean_prices\<close>: one draw for each key\<close>
  "vary_prices e pct [] i = ([], i)"
| "vary_prices e pct ((k, p) # ps) i =
     (let change = pct + uniform e (- 0.01) 0.01 i;
          (ps', j) = vary_prices e pct ps (i + 1)
      in ((k, py_round (p * (1 + change)) 2) # ps', j))"

definition weather_details :: "string list" where
  "weather_details =
     [''Ideal rainfall in major growing regions'',
      ''Drought conditions in parts of Brazil'',
      ''Excessive rainfall in Colombia affecting harvest'',
      ''Normal seasonal patterns across most regions'',
      ''Frost concerns in Brazil'',
      ''Hurricane damage in Central America'']"

definition political_details :: "string list" where
  "political_details =
     [''No major political disruptions in key regions'',
      ''Political tensions in Ethiopia affecting exports'',
      ''Trade policy changes impacting shipping costs'',
      ''Labor disputes in Colombia affecting production'',
      ''New export regulations in Vietnam'',
      ''Currency devaluation in Brazil affecting prices'']"

definition demand_details :: "string list" where
  "demand_details =
     [''Steady increase in global coffee consumption'',
      ''Shifting consumer preferences toward specialty coffee'',
      ''Economic slowdown affecting cafe sales'',
      ''New markets emerging in Asia'',
      ''Increased home consumption trends'',
      ''Seasonal demand fluctuations'']"

definition resample_factor :: "env \<Rightarrow> factor \<Rightarrow> nat \<Rightarrow> factor \<times> nat" where
  \<comment> \<open>status and impact are drawn, then the details when the factor's name is a known one\<close>
  "resample_factor e f i =
     (let f1 = f\<lparr>f_status := choice e [''Favorable'', ''Mixed'', ''Concerning''] i\<rparr>;
          f2 = f1\<lparr>f_impact := choice e [''Minimal'', ''Moderate'', ''Significant''] (i + 1)\<rparr>
      in if f_name f = ''Weather Conditions''
           then (f2\<lparr>f_details := choice e weather_details (i + 2)\<rparr>, i + 3)
         else if f_name f = ''Political Stability''
           then (f2\<lparr>f_details := choice e political_details (i + 2)\<rparr>, i + 3)
         else if f_name f = ''Global Demand''
           then (f2\<lparr>f_details := choice e demand_details (i + 2)\<rparr>, i + 3)
         else (f2, i + 2))"

definition update_factors :: "env \<Rightarrow> factor list \<Rightarrow> nat \<Rightarrow> error + (factor list \<times> nat)" where
  \<comment> \<open>with one chance in ten a factor is resampled; \<^verbatim>\<open>randint(0, -1)\<close> on an empty list
      raises ValueError\<close>
  "update_factors e fs i =
     (if py_random e i < 0.1 then
        (if fs = [] then Inl ValueError
         else (let factor_index = nat (randint e 0 (int (length fs) - 1) (i + 1));
                   (f, j) = resample_factor e (fs ! factor_index) (i + 2)
               in Inr (fs[factor_index := f], j)))
      else Inr (fs, i + 1))"

definition update_forecast :: "env \<Rightarrow> market \<Rightarrow> nat \<Rightarrow> market \<times> nat" where
  "update_forecast e m i =
     (if py_random e i < 0.05 then
        (m\<lparr>short_term := choice e [''Price increase expected'', ''Stable prices likely'',
                                   ''Price decrease expected''] (i + 1),
           long_term := choice e [''Upward trend'', ''Stable market'', ''Downward pressure'',
                                  ''Increased volatility''] (i + 2)\<rparr>, i + 3)
      else (m, i + 1))"

definition update_market_conditions :: "env \<Rightarrow> sim \<Rightarrow> outcome" where
  "update_market_conditions e s =
     (let m = market_conditions s;
          stamp = isoformat e (simulation_date s);
          current_price = average_price m;
          pct = draw_change_pct e (price_trend m) (drawn s);
          price = clamp_price (py_round (current_price * (1 + pct)) 2);
          history = push_history (price_history m) (stamp, price);
          (regional, i1) = vary_prices e pct (regional_prices m) (drawn s + 1);
          (beans, i2) = vary_prices e pct (bean_prices m) i1;
          m1 = m\<lparr>m_date := stamp, average_price := price, price_history := history,
                 price_trend := recompute_trend history (price_trend m),
                 regional_prices := regional, bean_prices := beans\<rparr>
      in case update_factors e (market_factors m1) i2 of
           Inl err \<Rightarrow> (s\<lparr>market_conditions := m1, drawn := i2 + 1\<rparr>, Some err)
         | Inr (fs, i3) \<Rightarrow>
             (let (m2, i4) = update_forecast e (m1\<lparr>market_factors := fs\<rparr>) i3
              in (s\<lparr>market_conditions := m2, drawn := i4,
                     changes := (changes s)\<lparr>ch_market_conditions :=
                       Some \<lparr>new_price = price, old_price = current_price,
                             change_pct = pct\<rparr>\<rparr>\<rparr>, None)))"

subsection \<open>\<^verbatim>\<open>_update_orders\<close>\<close>

definition delivery_str :: "order \<Rightarrow> string option" where
  \<comment> \<open>the date string: \<^verbatim>\<open>expected_delivery\<close> when the order has the key, else
      \<^verbatim>\<open>expected_delivery_date\<close>, else none\<close>
  "delivery_str ord =
     (case expected_delivery ord of
        Some d \<Rightarrow> Some d
      | None \<Rightarrow> expected_delivery_date ord)"

definition parse_delivery :: "env \<Rightarrow> string \<Rightarrow> error + datetime" where
  \<comment> \<open>\<^verbatim>\<open>fromisoformat\<close> on the string without its Z's; on its ValueError,
      \<^verbatim>\<open>strptime\<close> on the string as it is, whose ValueError nothing catches\<close>
  "parse_delivery e str =
     (case fromisoformat e (if CHR ''Z'' \<in> set str then filter (\<lambda>c. c \<noteq> CHR ''Z'') str else str) of
        Some d \<Rightarrow> Inr d
      | None \<Rightarrow>
          (case strptime_ymd e str of
             Some d \<Rightarrow> Inr d
           | None \<Rightarrow> Inl ValueError))"

definition set_delivery :: "env \<Rightarrow> order \<Rightarrow> datetime \<Rightarrow> order" where
  \<comment> \<open>the new date goes to the key the order has, in that key's format\<close>
  "set_delivery e ord d =
     (if expected_delivery ord \<noteq> None then ord\<lparr>expected_delivery := Some (isoformat e d)\<rparr>
      else if expected_delivery_date ord \<noteq> None
        then ord\<lparr>expected_delivery_date := Some (strftime_ymd e d)\<rparr>
      else ord)"

definition advance_order :: "env \<Rightarrow> order \<Rightarrow> datetime \<Rightarrow> int \<Rightarrow> nat \<Rightarrow> order \<times> order_change list \<times> nat" where
  \<comment> \<open>the status machine of one order, its date parsed and \<open>days\<close> days ahead\<close>
  "advance_order e ord due days i =
     (if o_status ord = ''pending'' \<and> days \<le> 30 then
        (if py_random e i < 0.8 then
           (ord\<lparr>o_status := ''in_transit''\<rparr>,
            [Transition (o_id ord) ''pending'' ''in_transit'' None], i + 1)
         else if py_random e (i + 1) < 0.5 then
           (let delay_days = randint e 5 15 (i + 2);
                new_delivery = add_days due delay_days
            in (set_delivery e (ord\<lparr>o_status := ''delayed''\<rparr>) new_delivery,
                [Transition (o_id ord) ''pending'' ''delayed'' (Some delay_days)], i + 3))
         else (ord, [], i + 2))
      else if o_status ord = ''in_transit'' \<and> days \<le> 0 then
        (ord\<lparr>o_status := ''delivered''\<rparr>,
         [Transition (o_id ord) ''in_transit'' ''delivered'' None], i)
      else if o_status ord = ''delayed'' then
        (if py_random e i < 0.3 then
           (ord\<lparr>o_status := ''in_transit''\<rparr>,
            [Transition (o_id ord) ''delayed'' ''in_transit'' None], i + 1)
         else (ord, [], i + 1))
      else (ord, [], i))"

definition update_order :: "env \<Rightarrow> datetime \<Rightarrow> order \<Rightarrow> nat \<Rightarrow> error + (order \<times> order_change list \<times> nat)" where
  \<comment> \<open>one turn of the loop: the order as it leaves the turn, the entries the turn
      appends to the change-log, and the draws made; or the exception\<close>
  "update_order e today ord i =
     (if o_status ord \<in> {''delivered'', ''cancelled''} then Inr (ord, [], i)
      else case delivery_str ord of
        None \<Rightarrow> Inr (ord, [], i)
      | Some str \<Rightarrow>
          (case parse_delivery e str of
             Inl err \<Rightarrow> Inl err
           | Inr due \<Rightarrow>
               (case days_between due today of
                  Inl err \<Rightarrow> Inl err
                | Inr days \<Rightarrow> Inr (advance_order e ord due days i))))"

fun update_orders_loop :: "env \<Rightarrow> datetime \<Rightarrow> order list \<Rightarrow> nat \<Rightarrow> order list \<times> order_change list \<times> nat \<times> error option" where
  \<comment> \<open>\<^verbatim>\<open>for i, order in enumerate(self.orders)\<close>: an exception leaves the orders not yet
      visited as they are\<close>
  "update_orders_loop e today [] i = ([], [], i, None)"
| "update_orders_loop e today (ord # rest) i =
     (case update_order e today ord i of
        Inl err \<Rightarrow> (ord # rest, [], i, Some err)
      | Inr (ord', entries, j) \<Rightarrow>
          (case update_orders_loop e today rest j of
             (rest', logs, k, err) \<Rightarrow> (ord' # rest', entries @ logs, k, err)))"

definition update_orders :: "env \<Rightarrow> sim \<Rightarrow> outcome" where
  "update_orders e s =
     (case update_orders_loop e (simulation_date s) (orders s) (drawn s) of
        (os, logs, i, err) \<Rightarrow>
          (s\<lparr>orders := os, drawn := i,
             changes := (changes s)\<lparr>ch_orders := ch_orders (changes s) @ logs\<rparr>\<rparr>, err))"

subsection \<open>\<^verbatim>\<open>_update_suppliers\<close>\<close>

definition drift_score :: "env \<Rightarrow> real \<Rightarrow> nat \<Rightarrow> real" where
  \<comment> \<open>\<^verbatim>\<open>round(max(5.0, min(10.0, old_value + random.uniform(-0.5, 0.5))), 1)\<close>\<close>
  "drift_score e old i = py_round (max 5 (min 10 (old + uniform e (- 0.5) 0.5 i))) 1"

definition drift_capacity :: "env \<Rightarrow> int \<Rightarrow> nat \<Rightarrow> int" where
  \<comment> \<open>\<^verbatim>\<open>int(old_value * (1 + random.uniform(-0.1, 0.1)))\<close>\<close>
  "drift_capacity e old i = py_int (real_of_int old * (1 + uniform e (- 0.1) 0.1 i))"

definition drift_supplier :: "env \<Rightarrow> supplier \<Rightarrow> string \<Rightarrow> nat \<Rightarrow> error + (supplier \<times> real option \<times> real option)" where
  \<comment> \<open>the branch on \<^verbatim>\<open>update_type\<close>: the supplier updated, \<^verbatim>\<open>old_value\<close> and
      \<^verbatim>\<open>new_value\<close>; \<^verbatim>\<open>supplier["quality_score"]\<close> raises KeyError on a supplier
      without the key\<close>
  "drift_supplier e sp ty i =
     (if ty = ''quality'' then
        (case quality_score sp of
           None \<Rightarrow> Inl (KeyError ''quality_score'')
         | Some old \<Rightarrow>
             Inr (sp\<lparr>quality_score := Some (drift_score e old i)\<rparr>,
                  Some old, Some (drift_score e old i)))
      else if ty = ''reliability'' then
        Inr (sp\<lparr>reliability_score := drift_score e (reliability_score sp) i\<rparr>,
             Some (reliability_score sp), Some (drift_score e (reliability_score sp) i))
      else if ty = ''sustainability'' then
        Inr (sp\<lparr>sustainability_score := drift_score e (sustainability_score sp) i\<rparr>,
             Some (sustainability_score sp), Some (drift_score e (sustainability_score sp) i))
      else if ty = ''capacity'' then
        Inr (sp\<lparr>capacity_kg_per_year := drift_capacity e (capacity_kg_per_year sp) i\<rparr>,
             Some (real_of_int (capacity_kg_per_year sp)),
             Some (real_of_int (drift_capacity e (capacity_kg_per_year sp) i)))
      else Inr (sp, None, None))"

definition log_supplier :: "supplier \<Rightarrow> string \<Rightarrow> real option \<Rightarrow> real option \<Rightarrow> changes \<Rightarrow> changes" where
  "log_supplier sp ty old new ch =
     ch\<lparr>ch_suppliers := ch_suppliers ch @
        [\<lparr>sc_id = s_id sp, sc_name = s_name sp, update_type = ty,
          old_value = old, new_value = new\<rparr>]\<rparr>"

definition update_suppliers :: "env \<Rightarrow> sim \<Rightarrow> outcome" where
  "update_suppliers e s =
     (if 0 < length (suppliers s) then
        (let i = drawn s;
             supplier_index = nat (randint e 0 (int (length (suppliers s)) - 1) i);
             sp = suppliers s ! supplier_index;
             ty = choice e [''quality'', ''reliability'', ''sustainability'', ''capacity''] (i + 1)
         in case drift_supplier e sp ty (i + 2) of
              Inl err \<Rightarrow> (s\<lparr>drawn := i + 2\<rparr>, Some err)
            | Inr (sp', old, new) \<Rightarrow>
                (s\<lparr>suppliers := (suppliers s)[supplier_index := sp'],
                   drawn := i + 3,
                   changes := log_supplier sp ty old new (changes s)\<rparr>, None))
      else (s, None))"

subsection \<open>\<^verbatim>\<open>_create_sample_contract\<close>\<close>

definition contract_price :: "real \<Rightarrow> supplier \<Rightarrow> real" where
  \<comment> \<open>\<^verbatim>\<open>round(base_price * (0.9 + quality_factor * 0.3), 2)\<close> with
      \<^verbatim>\<open>quality_factor = supplier.get('quality_score', 7.0) / 10.0\<close>\<close>
  "contract_price base_price sp =
     (let quality_factor = (case quality_score sp of None \<Rightarrow> 7 | Some q \<Rightarrow> q) / 10
      in py_round (base_price * (0.9 + quality_factor * 0.3)) 2)"

definition sample_contract :: "env \<Rightarrow> sim \<Rightarrow> supplier \<Rightarrow> int \<Rightarrow> nat \<Rightarrow> contract" where
  \<comment> \<open>the dictionary built for supplier \<open>sp\<close> with a term of \<open>duration\<close> days; its
      other draws start at \<open>i\<close>\<close>
  "sample_contract e s sp duration i =
     \<lparr>c_id = ''contract_'' @ s_id sp @ ''_'' @ now_stamp e,
      c_supplier_id = s_id sp,
      c_supplier_name = s_name sp,
      c_status = ''active'',
      start_date = strftime_ymd e (simulation_date s),
      end_date = strftime_ymd e (add_days (simulation_date s) duration),
      price_per_pound = contract_price (average_price (market_conditions s)) sp,
      min_lbs = randint e 5000 10000 i,
      max_lbs = randint e 15000 30000 (i + 1),
      c_bean_types = (case bean_types sp of None \<Rightarrow> [''Arabica''] | Some bs \<Rightarrow> bs),
      payment_terms = choice e [''Net 30'', ''Net 45'', ''Net 60''] (i + 2),
      delivery_terms = choice e [''FOB'', ''CIF'', ''EXW''] (i + 3),
      quality_requirements = ''SCA score 80+'',
      sustainability_requirements =
        choice e [''Rainforest Alliance Certified'', ''Organic Certified'',
                  ''Fair Trade Certified'', ''Standard Practices''] (i + 4)\<rparr>"

definition create_sample_contract :: "env \<Rightarrow> sim \<Rightarrow> outcome" where
  \<comment> \<open>nothing is done without suppliers; the \<^verbatim>\<open>print\<close> at the end is not modelled\<close>
  "create_sample_contract e s =
     (if suppliers s = [] then (s, None)
      else
        (let i = drawn s;
             sp = choice e (suppliers s) i;
             duration = randint e 90 365 (i + 1);
             c = sample_contract e s sp duration (i + 2)
         in (s\<lparr>contracts := contracts s @ [c],
               drawn := i + 7,
               changes := (changes s)\<lparr>ch_contracts := ch_contracts (changes s) @
                 [\<lparr>cc_id = c_id c, cc_action = ''created'', cc_supplier = s_name sp\<rparr>]\<rparr>\<rparr>,
             None)))"

subsection \<open>\<^verbatim>\<open>simulate_step\<close>\<close>

definition begin_step :: "sim \<Rightarrow> sim" where
  \<comment> \<open>the step counter, the date (one day on), and the change-log emptied\<close>
  "begin_step s =
     s\<lparr>simulation_step := simulation_step s + 1,
       simulation_date := add_days (simulation_date s) 1,
       changes := no_changes\<rparr>"

definition maybe_update_suppliers :: "env \<Rightarrow> sim \<Rightarrow> outcome" where
  \<comment> \<open>\<^verbatim>\<open>if random.random() < 0.2: self._update_suppliers()\<close>\<close>
  "maybe_update_suppliers e s =
     (if py_random e (drawn s) < 0.2 then update_suppliers e (s\<lparr>drawn := drawn s + 1\<rparr>)
      else (s\<lparr>drawn := drawn s + 1\<rparr>, None))"

definition active_contracts :: "sim \<Rightarrow> contract list" where
  \<comment> \<open>\<^verbatim>\<open>[c for c in self.contracts if c['status'] == 'active']\<close>\<close>
  "active_contracts s = filter (\<lambda>c. c_status c = ''active'') (contracts s)"

definition ensure_active_contract :: "env \<Rightarrow> sim \<Rightarrow> outcome" where
  \<comment> \<open>the last statement of \<^verbatim>\<open>simulate_step\<close>\<close>
  "ensure_active_contract e s =
     (if length (active_contracts s) = 0 then
        (if py_random e (drawn s) < 0.5 then create_sample_contract e (s\<lparr>drawn := drawn s + 1\<rparr>)
         else (s\<lparr>drawn := drawn s + 1\<rparr>, None))
      else (s, None))"

definition simulate_step :: "env \<Rightarrow> sim \<Rightarrow> outcome" where
  "simulate_step e s =
     and_then (and_then (and_then (update_market_conditions e (begin_step s))
       (update_orders e)) (maybe_update_suppliers e)) (ensure_active_contract e)"

text \<open>
  The drivers (the loop of \<^verbatim>\<open>src/app.py\<close>, the endpoint of \<^verbatim>\<open>src/agent_api.py\<close>) call
  \<^verbatim>\<open>simulate_step\<close> again and again on the same object, whatever the previous call
  raised. Each call has its own environment (its wall clock).
\<close>

fun run_steps :: "env list \<Rightarrow> sim \<Rightarrow> sim" where
  "run_steps [] s = s"
| "run_steps (e # es) s = run_steps es (fst (simulate_step e s))"

subsection \<open>\<^verbatim>\<open>update_order_expected_delivery\<close> and \<^verbatim>\<open>get_changes\<close>\<close>

definition store_delivery :: "order \<Rightarrow> string \<Rightarrow> order" where
  \<comment> \<open>the value goes to \<^verbatim>\<open>expected_delivery\<close> when the order has the key, else to
      \<^verbatim>\<open>expected_delivery_date\<close> when it has that one\<close>
  "store_delivery ord v =
     (if expected_delivery ord \<noteq> None then ord\<lparr>expected_delivery := Some v\<rparr>
      else if expected_delivery_date ord \<noteq> None then ord\<lparr>expected_delivery_date := Some v\<rparr>
      else ord)"

fun update_delivery_loop :: "string \<Rightarrow> string \<Rightarrow> order list \<Rightarrow> error + (order list \<times> order_change list)" where
  \<comment> \<open>the loop stops at the first order with the ID; \<^verbatim>\<open>order["expected_delivery"]\<close> is
      read before anything is written\<close>
  "update_delivery_loop order_id v [] = Inr ([], [])"
| "update_delivery_loop order_id v (ord # rest) =
     (if o_id ord = order_id then
        (case expected_delivery ord of
           None \<Rightarrow> Inl (KeyError ''expected_delivery'')
         | Some old_delivery \<Rightarrow>
             Inr (store_delivery ord v # rest, [Update_delivery order_id old_delivery v]))
      else
        (case update_delivery_loop order_id v rest of
           Inl err \<Rightarrow> Inl err
         | Inr (rest', entries) \<Rightarrow> Inr (ord # rest', entries)))"

definition update_order_expected_delivery :: "sim \<Rightarrow> string \<Rightarrow> string \<Rightarrow> outcome" where
  "update_order_expected_delivery s order_id v =
     (case update_delivery_loop order_id v (orders s) of
        Inl err \<Rightarrow> (s, Some err)
      | Inr (os, entries) \<Rightarrow>
          (s\<lparr>orders := os,
             changes := (changes s)\<lparr>ch_orders := ch_orders (changes s) @ entries\<rparr>\<rparr>, None))"

definition get_changes :: "sim \<Rightarrow> changes \<times> sim" where
  \<comment> \<open>the copy handed out, and the simulator, which the call leaves as it was\<close>
  "get_changes s = (changes s, s)"

section \<open>Properties and examples\<close>

subsection \<open>Predicates the properties are stated with\<close>

definition price_in_bounds :: "sim \<Rightarrow> bool" where
  "price_in_bounds s =
     (3 \<le> average_price (market_conditions s) \<and> average_price (market_conditions s) \<le> 10)"

definition score_in_bounds :: "real \<Rightarrow> bool" where
  "score_in_bounds x = (5 \<le> x \<and> x \<le> 10)"

definition scores_in_bounds :: "supplier \<Rightarrow> bool" where
  \<comment> \<open>the three scores of a supplier, the quality score when the supplier has one\<close>
  "scores_in_bounds sp =
     ((case quality_score sp of None \<Rightarrow> True | Some q \<Rightarrow> score_in_bounds q) \<and>
      score_in_bounds (reliability_score sp) \<and>
      score_in_bounds (sustainability_score sp))"

definition bounds_hold :: "sim \<Rightarrow> bool" where
  "bounds_hold s = (price_in_bounds s \<and> list_all scores_in_bounds (suppliers s))"

definition skipped :: "order \<Rightarrow> bool" where
  \<comment> \<open>the orders the loop of \<^verbatim>\<open>_update_orders\<close> passes over before it parses a date\<close>
  "skipped ord = (o_status ord \<in> {''delivered'', ''cancelled''} \<or> delivery_str ord = None)"





subsection \<open>A small market, for the concrete instances\<close>

definition eighths :: "nat \<Rightarrow> nat" where
  \<comment> \<open>the 53 bits of the draw \<open>k / 8\<close>\<close>
  "eighths k = k * 2 ^ 50"

definition draws_from :: "nat list \<Rightarrow> nat \<Rightarrow> nat" where
  \<comment> \<open>a generator whose first draws are the listed eighths, and 0 from then on\<close>
  "draws_from ks i = (if i < length ks then eighths (ks ! i) else 0)"

definition ex_date :: datetime where
  \<comment> \<open>2025-01-01 00:00:00, naive\<close>
  "ex_date = \<lparr>micros = 0, aware = False\<rparr>"

definition two_digits :: "nat \<Rightarrow> string" where
  "two_digits n = [''0123456789'' ! (n div 10 mod 10), ''0123456789'' ! (n mod 10)]"

fun ymd_2025 :: "nat \<Rightarrow> nat list \<Rightarrow> nat \<Rightarrow> string" where
  \<comment> \<open>the date of day \<open>n\<close> (from 0) of the months left, the first of them month \<open>m\<close>\<close>
  "ymd_2025 n [] m = ''2026 or later''"
| "ymd_2025 n (l # ls) m =
     (if n < l then ''2025-'' @ two_digits m @ ''-'' @ two_digits (n + 1)
      else ymd_2025 (n - l) ls (m + 1))"

definition ex_ymd :: "datetime \<Rightarrow> string" where
  \<comment> \<open>the calendar of 2025, day 0 being \<open>ex_date\<close>\<close>
  "ex_ymd d =
     ymd_2025 (nat (micros d div day_micros)) [31, 28, 31, 30, 31, 30, 31, 31, 30, 31, 30, 31] 1"

definition ex_parse :: "string \<Rightarrow> datetime option" where
  "ex_parse = map_of [(''2025-01-11'', add_days ex_date 10),
                      (''2025-01-11T00:00:00'', add_days ex_date 10)]"

definition ex_env :: "nat list \<Rightarrow> env" where
  "ex_env ks =
     \<lparr>fromisoformat = ex_parse,
      strptime_ymd = map_of [(''2025-01-11'', add_days ex_date 10)],
      isoformat = (\<lambda>d. ex_ymd d @ ''T00:00:00''),
      strftime_ymd = ex_ymd,
      now_stamp = ''20250101120000'',
      bits = draws_from ks\<rparr>"

definition ex_supplier :: supplier where
  "ex_supplier =
     \<lparr>s_id = ''S1'', s_name = ''Kenya Coffee Cooperative 1'', region = ''Kenya'',
      bean_types = Some [''Arabica'', ''SL28''], certifications = [''Organic''],
      quality_score = Some 8, capacity_kg_per_year = 50000, reliability_score = 7.5,
      years_in_business = 10, sustainability_score = 9\<rparr>"

definition ex_order :: order where
  \<comment> \<open>pending, due ten days after \<open>ex_date\<close>, the date under the legacy key\<close>
  "ex_order = \<lparr>o_id = ''O1'', o_status = ''pending'', expected_delivery = None,
      expected_delivery_date = Some ''2025-01-11''\<rparr>"

definition ex_market :: market where
  "ex_market =
     \<lparr>m_date = ''2025-01-01T00:00:00'', average_price = 4.5, price_trend = ''Stable'',
      price_history = [(''2024-12-31T00:00:00'', 4.5)],
      regional_prices = [(''Kenya'', 4.2)], bean_prices = [(''Arabica'', 4.5)],
      market_factors =
        [\<lparr>f_name = ''Weather Conditions'', f_status = ''Favorable'', f_impact = ''Minimal'',
          f_details = ''Ideal rainfall in major growing regions''\<rparr>],
      short_term = ''Stable prices likely'', long_term = ''Stable market''\<rparr>"

definition ex_sim :: sim where
  "ex_sim =
     \<lparr>suppliers = [ex_supplier], contracts = [], orders = [ex_order],
      market_conditions = ex_market, simulation_date = ex_date, simulation_step = 0,
      changes = no_changes, drawn = 0\<rparr>"

definition ex_busy :: "nat list" where
  \<comment> \<open>draws with which the order moves on, a supplier's quality drifts and a contract
      is synthesised\<close>
  "ex_busy = [4, 4, 4, 7, 7, 0, 0, 0, 0, 7, 0, 0, 4, 0, 1, 2, 3, 4]"

definition ex_quiet :: "nat list" where
  \<comment> \<open>every draw is 7/8: no branch that tests a draw against a threshold is taken\<close>
  "ex_quiet = [7, 7, 7, 7, 7, 7, 7, 7, 7]"

definition ex_full_history :: sim where
  \<comment> \<open>\<open>ex_sim\<close> with thirty points of history, the prices 4.00, 4.01, ... 4.29\<close>
  "ex_full_history =
     ex_sim\<lparr>market_conditions :=
       ex_market\<lparr>price_history := map (\<lambda>k. (''2024-12-'' @ two_digits (k + 2), 4 + real k / 100)) [0..<30]\<rparr>\<rparr>"

definition ex_delivered :: sim where
  "ex_delivered = ex_sim\<lparr>orders := [ex_order\<lparr>o_status := ''delivered''\<rparr>, ex_order]\<rparr>"

definition ex_undated :: sim where
  \<comment> \<open>an order with neither date key, before one with a date\<close>
  "ex_undated = ex_sim\<lparr>orders := [ex_order\<lparr>expected_delivery_date := None\<rparr>, ex_order]\<rparr>"

definition ex_unparsable :: sim where
  "ex_unparsable = ex_sim\<lparr>orders := [ex_order\<lparr>expected_delivery_date := Some ''next week''\<rparr>]\<rparr>"

definition ex_small_capacity :: sim where
  "ex_small_capacity = ex_sim\<lparr>suppliers := [ex_supplier\<lparr>capacity_kg_per_year := 1\<rparr>]\<rparr>"

definition ex_same_id :: sim where
  \<comment> \<open>two orders with the ID O1: the first has the key \<^verbatim>\<open>expected_delivery\<close>, the second
      only the legacy key\<close>
  "ex_same_id =
     ex_sim\<lparr>orders := [ex_order\<lparr>expected_delivery := Some ''2025-01-11T00:00:00'',
                                 expected_delivery_date := None\<rparr>, ex_order]\<rparr>"


definition ex_contract :: contract where
  "ex_contract =
     \<lparr>c_id = ''contract_S1_20250101120000'', c_supplier_id = ''S1'',
      c_supplier_name = ''Kenya Coffee Cooperative 1'', c_status = ''active'',
      start_date = ''2025-01-02'', end_date = ''2025-08-18'', price_per_pound = 5.18,
      min_lbs = 5000, max_lbs = 16875, c_bean_types = [''Arabica'', ''SL28''],
      payment_terms = ''Net 30'', delivery_terms = ''CIF'',
      quality_requirements = ''SCA score 80+'',
      sustainability_requirements = ''Fair Trade Certified''\<rparr>"

definition ex_after_busy :: sim where
  \<comment> \<open>\<open>ex_sim\<close> after a step with the draws \<open>ex_busy\<close>\<close>
  "ex_after_busy =
     \<lparr>suppliers = [ex_supplier\<lparr>quality_score := Some 8.4\<rparr>],
      contracts = [ex_contract],
      orders = [ex_order\<lparr>o_status := ''in_transit''\<rparr>],
      market_conditions =
        ex_market\<lparr>m_date := ''2025-01-02T00:00:00'',
          price_history := [(''2024-12-31T00:00:00'', 4.5), (''2025-01-02T00:00:00'', 4.5)]\<rparr>,
      simulation_date = add_days ex_date 1,
      simulation_step = 1,
      changes =
        \<lparr>ch_suppliers = [\<lparr>sc_id = ''S1'', sc_name = ''Kenya Coffee Cooperative 1'',
            update_type = ''quality'', old_value = Some 8, new_value = Some 8.4\<rparr>],
         ch_contracts = [\<lparr>cc_id = ''contract_S1_20250101120000'', cc_action = ''created'',
            cc_supplier = ''Kenya Coffee Cooperative 1''\<rparr>],
         ch_orders = [Transition ''O1'' ''pending'' ''in_transit'' None],
         ch_market_conditions = Some \<lparr>new_price = 4.5, old_price = 4.5, change_pct = 0\<rparr>\<rparr>,
      drawn = 18\<rparr>"


section \<open>The accessors, over a store of objects\<close>

text \<open>
  \<^verbatim>\<open>get_suppliers\<close>, \<^verbatim>\<open>get_contracts\<close>, \<^verbatim>\<open>get_orders\<close> and \<^verbatim>\<open>get_market_conditions\<close>
  return \<^verbatim>\<open>copy.deepcopy\<close> of an attribute. What a caller can do with the result depends
  on which objects it shares with the simulator, so here the lists and dictionaries live
  in a store: a list of objects, the address of an object being its index. A value is
  an atom or a reference to an object, and the simulator object holds the addresses of
  its collections.

  \<^verbatim>\<open>copy.deepcopy\<close> is modelled by copying every object of the store to a new address
  (the object at \<open>a\<close> to \<open>length h + a\<close>) and moving the references inside the
  copies with it. The part of this that can be reached from the copied value is the
  structure Python builds, with the sharing and the cycles of the original; the other
  copies are objects that nothing refers to.
\<close>

type_synonym addr = nat

datatype pyval = PNone | PBool bool | PInt int | PFloat real | PStr string | PRef addr

datatype pyobj = PList "pyval list" | PDict "(string \<times> pyval) list"

type_synonym store = "pyobj list"

fun vals :: "pyobj \<Rightarrow> pyval list" where
  \<comment> \<open>the values an object holds\<close>
  "vals (PList vs) = vs"
| "vals (PDict kvs) = map snd kvs"

fun shift :: "nat \<Rightarrow> pyval \<Rightarrow> pyval" where
  \<comment> \<open>a reference moved up by \<open>k\<close> addresses\<close>
  "shift k (PRef a) = PRef (a + k)"
| "shift k v = v"

fun shift_obj :: "nat \<Rightarrow> pyobj \<Rightarrow> pyobj" where
  "shift_obj k (PList vs) = PList (map (shift k) vs)"
| "shift_obj k (PDict kvs) = PDict (map (\<lambda>(key, v). (key, shift k v)) kvs)"

definition deepcopy :: "store \<Rightarrow> pyval \<Rightarrow> pyval \<times> store" where
  \<comment> \<open>\<^verbatim>\<open>copy.deepcopy(v)\<close>: the copy, and the store with the copies in it\<close>
  "deepcopy h v = (shift (length h) v, h @ map (shift_obj (length h)) h)"

record sim_obj =
  suppliers_at :: addr
  contracts_at :: addr
  orders_at :: addr
  market_conditions_at :: addr

definition get_suppliers :: "sim_obj \<Rightarrow> store \<Rightarrow> pyval \<times> store" where
  "get_suppliers self h = deepcopy h (PRef (suppliers_at self))"

definition get_contracts :: "sim_obj \<Rightarrow> store \<Rightarrow> pyval \<times> store" where
  "get_contracts self h = deepcopy h (PRef (contracts_at self))"

definition get_orders :: "sim_obj \<Rightarrow> store \<Rightarrow> pyval \<times> store" where
  "get_orders self h = deepcopy h (PRef (orders_at self))"

definition get_market_conditions :: "sim_obj \<Rightarrow> store \<Rightarrow> pyval \<times> store" where
  "get_market_conditions self h = deepcopy h (PRef (market_conditions_at self))"

subsection \<open>Reading a structure, reaching an object\<close>

datatype tree = Leaf pyval | ListT "tree list" | DictT "(string \<times> tree) list" | Deeper | Dangling

fun view :: "nat \<Rightarrow> store \<Rightarrow> pyval \<Rightarrow> tree" where
  \<comment> \<open>what a caller reads from a value, down to \<open>n\<close> references deep\<close>
  "view 0 h v = (case v of PRef a \<Rightarrow> Deeper | _ \<Rightarrow> Leaf v)"
| "view (Suc n) h v =
     (case v of
        PRef a \<Rightarrow>
          (if a < length h then
             (case h ! a of
                PList vs \<Rightarrow> ListT (map (view n h) vs)
              | PDict kvs \<Rightarrow> DictT (map (\<lambda>(key, x). (key, view n h x)) kvs))
           else Dangling)
      | _ \<Rightarrow> Leaf v)"

definition points_below :: "nat \<Rightarrow> pyval \<Rightarrow> bool" where
  \<comment> \<open>an atom, or a reference to one of the first \<open>m\<close> objects\<close>
  "points_below m v = (case v of PRef a \<Rightarrow> a < m | _ \<Rightarrow> True)"

definition closed_below :: "nat \<Rightarrow> store \<Rightarrow> bool" where
  \<comment> \<open>the first \<open>m\<close> objects refer to each other only\<close>
  "closed_below m h =
     (m \<le> length h \<and> list_all (\<lambda>obj. list_all (points_below m) (vals obj)) (take m h))"

definition wf_store :: "store \<Rightarrow> bool" where
  \<comment> \<open>no reference leads out of the store, as in every Python heap\<close>
  "wf_store h = closed_below (length h) h"

definition same_below :: "nat \<Rightarrow> store \<Rightarrow> store \<Rightarrow> bool" where
  \<comment> \<open>\<open>h'\<close> has the first \<open>m\<close> objects of \<open>h\<close> as they are in \<open>h\<close>\<close>
  "same_below m h h' = (m \<le> length h \<and> m \<le> length h' \<and> take m h' = take m h)"

inductive reach :: "store \<Rightarrow> pyval \<Rightarrow> addr \<Rightarrow> bool" for h :: store where
  reach_here: "a < length h \<Longrightarrow> reach h (PRef a) a"
| reach_step: "reach h v a \<Longrightarrow> PRef b \<in> set (vals (h ! a)) \<Longrightarrow> b < length h \<Longrightarrow> reach h v b"

definition copy_isolated :: "(store \<Rightarrow> pyval \<times> store) \<Rightarrow> addr \<Rightarrow> store \<Rightarrow> bool" where
  \<comment> \<open>what makes the result of the accessor \<open>get\<close>, which reads the attribute at \<open>r\<close>, an
      independent copy in the store \<open>h\<close>\<close>
  "copy_isolated get r h =
     (same_below (length h) h (snd (get h)) \<and>
      (\<forall>a. reach (snd (get h)) (fst (get h)) a \<longrightarrow> length h \<le> a) \<and>
      (\<forall>a obj. reach (snd (get h)) (fst (get h)) a \<longrightarrow>
         same_below (length h) h ((snd (get h))[a := obj])) \<and>
      (\<forall>n. view n (snd (get h)) (fst (get h)) = view n h (PRef r)) \<and>
      (\<forall>h' n. same_below (length h) h h' \<longrightarrow>
         view n (snd (get h')) (fst (get h')) = view n (snd (get h)) (fst (get h))))"

subsection \<open>A small store, for the concrete instance\<close>

definition ex_store :: store where
  "ex_store =
     [PList [PRef 1],
      PDict [(''id'', PStr ''S1''), (''name'', PStr ''Kenya Coffee Cooperative 1''),
             (''quality_score'', PFloat 8), (''bean_types'', PRef 2)],
      PList [PStr ''Arabica'', PStr ''SL28''],
      PList [],
      PList [],
      PDict [(''average_price'', PFloat 4.5), (''price_history'', PRef 6)],
      PList []]"

definition ex_self :: sim_obj where
  "ex_self = \<lparr>suppliers_at = 0, contracts_at = 3, orders_at = 4, market_conditions_at = 5\<rparr>"

definition ex_mutated :: store where
  "ex_mutated =
     (snd (get_suppliers ex_self ex_store))
       [8 := PDict [(''id'', PStr ''S1''), (''name'', PStr ''renamed'')],
        9 := PList [PStr ''Arabica'', PStr ''SL28'', PStr ''Robusta''],
        7 := PList [PRef 8, PRef 8]]"

definition ex_view :: tree where
  "ex_view =
     ListT [DictT [(''id'', Leaf (PStr ''S1'')),
                   (''name'', Leaf (PStr ''Kenya Coffee Cooperative 1'')),
                   (''quality_score'', Leaf (PFloat 8)),
                   (''bean_types'', ListT [Leaf (PStr ''Arabica''), Leaf (PStr ''SL28'')])]]"

section \<open>Proofs\<close>

subsection \<open>The draws are in range\<close>

lemma py_random_ge0: "0 \<le> py_random e i"
  by (simp add: py_random_def)

lemma py_random_lt1: "py_random e i < 1"
proof -
  have "bits e i mod 2 ^ 53 < (2::nat) ^ 53" by simp
  then have "real (bits e i mod 2 ^ 53) < real ((2::nat) ^ 53)"
    by (rule iffD2 [OF of_nat_less_iff])
  then show ?thesis by (simp add: py_random_def)
qed

lemma uniform_bounds: "a \<le> b \<Longrightarrow> a \<le> uniform e a b i \<and> uniform e a b i \<le> b"
proof -
  assume ab: "a \<le> b"
  have u0: "0 \<le> py_random e i" and u1: "py_random e i \<le> 1"
    using py_random_ge0 py_random_lt1 [of e i] by auto
  have "0 \<le> (b - a) * py_random e i" using ab u0 by simp
  moreover have "(b - a) * py_random e i \<le> (b - a) * 1"
    using ab u1 by (intro mult_left_mono) auto
  ultimately show ?thesis by (simp add: uniform_def)
qed

lemma randbelow_lt: "0 < n \<Longrightarrow> randbelow e n i < n"
proof -
  assume n: "0 < n"
  have "py_random e i * real n < 1 * real n"
    using py_random_lt1 [of e i] n by (intro mult_strict_right_mono) auto
  then have "\<lfloor>py_random e i * real n\<rfloor> < int n"
    by (simp add: floor_less_iff)
  moreover have "0 \<le> \<lfloor>py_random e i * real n\<rfloor>"
    using py_random_ge0 [of e i] by simp
  ultimately have "nat \<lfloor>py_random e i * real n\<rfloor> < n" by linarith
  then show ?thesis by (simp add: randbelow_def)
qed

lemma randint_bounds: "a \<le> b \<Longrightarrow> a \<le> randint e a b i \<and> randint e a b i \<le> b"
  using randbelow_lt [of "nat (b - a + 1)" e i] by (simp add: randint_def)

subsection \<open>Rounding and clamping\<close>

lemma round_half_even_ge: "real_of_int a \<le> x \<Longrightarrow> a \<le> round_half_even x"
proof -
  assume "real_of_int a \<le> x"
  then have "a \<le> \<lfloor>x\<rfloor>" by (simp add: le_floor_iff)
  then show ?thesis by (simp add: round_half_even_def Let_def)
qed

lemma round_half_even_le: "x \<le> real_of_int b \<Longrightarrow> round_half_even x \<le> b"
proof -
  assume xb: "x \<le> real_of_int b"
  show ?thesis
  proof (cases "x = real_of_int b")
    case True
    then show ?thesis by (simp add: round_half_even_def Let_def)
  next
    case False
    with xb have "x < real_of_int b" by simp
    then have "\<lfloor>x\<rfloor> < b" by (simp add: floor_less_iff)
    then show ?thesis by (simp add: round_half_even_def Let_def)
  qed
qed

lemma clamp_price_bounds: "3 \<le> clamp_price p \<and> clamp_price p \<le> 10"
  by (simp add: clamp_price_def)

lemma py_round1_bounds: "5 \<le> y \<Longrightarrow> y \<le> 10 \<Longrightarrow> 5 \<le> py_round y 1 \<and> py_round y 1 \<le> 10"
proof -
  assume y: "5 \<le> y" "y \<le> 10"
  have "real_of_int 50 \<le> y * 10" using y by simp
  then have lo: "50 \<le> round_half_even (y * 10)" by (rule round_half_even_ge)
  have "y * 10 \<le> real_of_int 100" using y by simp
  then have hi: "round_half_even (y * 10) \<le> 100" by (rule round_half_even_le)
  have "5 \<le> real_of_int (round_half_even (y * 10)) / 10"
    using lo by simp
  moreover have "real_of_int (round_half_even (y * 10)) / 10 \<le> 10"
    using hi by simp
  ultimately show ?thesis by (simp add: py_round_def)
qed

lemma drift_score_bounds: "5 \<le> drift_score e old i \<and> drift_score e old i \<le> 10"
  unfolding drift_score_def by (rule py_round1_bounds) simp_all

lemma push_history_eq: "push_history h pt = drop (length h - 29) h @ [pt]"
  by (simp add: push_history_def last_n_def Let_def)

subsection \<open>What each sub-step leaves alone\<close>

lemma and_then_keeps: "P (fst r) \<Longrightarrow> (\<And>s. P s \<Longrightarrow> P (fst (f s))) \<Longrightarrow> P (fst (and_then r f))"
  by (cases r) (auto simp: and_then_def split: option.splits)

lemma market_step_frame:
  "orders (fst (update_market_conditions e s)) = orders s"
  "suppliers (fst (update_market_conditions e s)) = suppliers s"
  "contracts (fst (update_market_conditions e s)) = contracts s"
  "simulation_date (fst (update_market_conditions e s)) = simulation_date s"
  by (simp_all add: update_market_conditions_def Let_def split: prod.splits sum.splits)

lemma forecast_frame:
  "average_price (fst (update_forecast e m i)) = average_price m"
  "price_history (fst (update_forecast e m i)) = price_history m"
  by (simp_all add: update_forecast_def)

lemma market_step_price:
  "average_price (market_conditions (fst (update_market_conditions e s))) =
     clamp_price (py_round (average_price (market_conditions s) *
       (1 + draw_change_pct e (price_trend (market_conditions s)) (drawn s))) 2)"
  by (simp add: update_market_conditions_def Let_def split_beta forecast_frame split: sum.splits)

lemma market_step_history:
  "price_history (market_conditions (fst (update_market_conditions e s))) =
     push_history (price_history (market_conditions s))
       (isoformat e (simulation_date s),
        average_price (market_conditions (fst (update_market_conditions e s))))"
  by (simp add: update_market_conditions_def Let_def split_beta forecast_frame split: sum.splits)

lemma orders_step_frame:
  "market_conditions (fst (update_orders e s)) = market_conditions s"
  "suppliers (fst (update_orders e s)) = suppliers s"
  "contracts (fst (update_orders e s)) = contracts s"
  "simulation_date (fst (update_orders e s)) = simulation_date s"
  by (simp_all add: update_orders_def split_beta)

lemma suppliers_step_frame:
  "market_conditions (fst (update_suppliers e s)) = market_conditions s"
  "orders (fst (update_suppliers e s)) = orders s"
  "contracts (fst (update_suppliers e s)) = contracts s"
  "simulation_date (fst (update_suppliers e s)) = simulation_date s"
  by (simp_all add: update_suppliers_def Let_def split_beta split: sum.splits)

lemma maybe_suppliers_frame:
  "market_conditions (fst (maybe_update_suppliers e s)) = market_conditions s"
  "orders (fst (maybe_update_suppliers e s)) = orders s"
  "contracts (fst (maybe_update_suppliers e s)) = contracts s"
  "simulation_date (fst (maybe_update_suppliers e s)) = simulation_date s"
  by (simp_all add: maybe_update_suppliers_def suppliers_step_frame)

lemma create_contract_frame:
  "market_conditions (fst (create_sample_contract e s)) = market_conditions s"
  "orders (fst (create_sample_contract e s)) = orders s"
  "suppliers (fst (create_sample_contract e s)) = suppliers s"
  "simulation_date (fst (create_sample_contract e s)) = simulation_date s"
  by (simp_all add: create_sample_contract_def Let_def)

lemma ensure_contract_frame:
  "market_conditions (fst (ensure_active_contract e s)) = market_conditions s"
  "orders (fst (ensure_active_contract e s)) = orders s"
  "suppliers (fst (ensure_active_contract e s)) = suppliers s"
  "simulation_date (fst (ensure_active_contract e s)) = simulation_date s"
  by (simp_all add: ensure_active_contract_def create_contract_frame)

lemma and_then_simps:
  "and_then (s, None) f = f s"
  "and_then (s, Some err) f = (s, Some err)"
  by (simp_all add: and_then_def)

lemma and_then_proj: "(\<And>s. g (fst (f s)) = g s) \<Longrightarrow> g (fst (and_then r f)) = g (fst r)"
  by (cases r) (auto simp: and_then_def split: option.splits)

lemma step_market:
  "market_conditions (fst (simulate_step e s)) =
     market_conditions (fst (update_market_conditions e (begin_step s)))"
  unfolding simulate_step_def
  by (simp add: and_then_proj [where g = market_conditions]
      orders_step_frame maybe_suppliers_frame ensure_contract_frame)

lemma begin_step_simps:
  "market_conditions (begin_step s) = market_conditions s"
  "simulation_date (begin_step s) = add_days (simulation_date s) 1"
  "orders (begin_step s) = orders s"
  "suppliers (begin_step s) = suppliers s"
  "contracts (begin_step s) = contracts s"
  "drawn (begin_step s) = drawn s"
  "changes (begin_step s) = no_changes"
  by (simp_all add: begin_step_def)

subsection \<open>The scores under the supplier drift\<close>

lemma drift_supplier_bounds:
  "scores_in_bounds sp \<Longrightarrow> drift_supplier e sp ty i = Inr (sp', old, new) \<Longrightarrow> scores_in_bounds sp'"
  using drift_score_bounds
  by (auto simp: drift_supplier_def scores_in_bounds_def score_in_bounds_def
      split: if_splits option.splits)

lemma list_all_update: "list_all P xs \<Longrightarrow> P x \<Longrightarrow> list_all P (xs[i := x])"
  using set_update_subset_insert [of xs i x] by (auto simp: list_all_iff)

lemma update_suppliers_bounds:
  assumes "list_all scores_in_bounds (suppliers s)"
  shows "list_all scores_in_bounds (suppliers (fst (update_suppliers e s)))"
proof (cases "0 < length (suppliers s)")
  case False
  then show ?thesis using assms by (simp add: update_suppliers_def)
next
  case True
  define k where "k = nat (randint e 0 (int (length (suppliers s)) - 1) (drawn s))"
  define ty where "ty = choice e [''quality'', ''reliability'', ''sustainability'', ''capacity''] (drawn s + 1)"
  have "randint e 0 (int (length (suppliers s)) - 1) (drawn s) \<le> int (length (suppliers s)) - 1"
    using True randint_bounds [of 0 "int (length (suppliers s)) - 1" e "drawn s"] by simp
  then have k: "k < length (suppliers s)" using True unfolding k_def by linarith
  then have sp: "scores_in_bounds (suppliers s ! k)"
    using assms by (simp add: list_all_length)
  show ?thesis
  proof (cases "drift_supplier e (suppliers s ! k) ty (drawn s + 2)")
    case (Inl err)
    then show ?thesis using assms True
      by (simp add: update_suppliers_def Let_def k_def ty_def)
  next
    case (Inr r)
    obtain sp' old new where r: "r = (sp', old, new)" by (cases r)
    have "scores_in_bounds sp'" using drift_supplier_bounds [OF sp] Inr r by simp
    then have "list_all scores_in_bounds ((suppliers s)[k := sp'])"
      using assms by (rule list_all_update [rotated])
    then show ?thesis using Inr r True
      by (simp add: update_suppliers_def Let_def k_def ty_def)
  qed
qed

lemma step_keeps_scores:
  assumes "list_all scores_in_bounds (suppliers s)"
  shows "list_all scores_in_bounds (suppliers (fst (simulate_step e s)))"
  unfolding simulate_step_def
proof (intro and_then_keeps [where P = "\<lambda>s. list_all scores_in_bounds (suppliers s)"])
  show "list_all scores_in_bounds (suppliers (fst (update_market_conditions e (begin_step s))))"
    using assms by (simp add: market_step_frame begin_step_simps)
next
  fix t :: sim assume "list_all scores_in_bounds (suppliers t)"
  then show "list_all scores_in_bounds (suppliers (fst (update_orders e t)))"
    by (simp add: orders_step_frame)
next
  fix t :: sim assume t: "list_all scores_in_bounds (suppliers t)"
  show "list_all scores_in_bounds (suppliers (fst (maybe_update_suppliers e t)))"
    using t update_suppliers_bounds [of "t\<lparr>drawn := drawn t + 1\<rparr>" e]
    by (simp add: maybe_update_suppliers_def)
next
  fix t :: sim assume "list_all scores_in_bounds (suppliers t)"
  then show "list_all scores_in_bounds (suppliers (fst (ensure_active_contract e t)))"
    by (simp add: ensure_contract_frame)
qed

lemma step_price_bounds: "price_in_bounds (fst (simulate_step e s))"
  by (simp add: price_in_bounds_def step_market market_step_price clamp_price_bounds)

lemma step_keeps_bounds: "bounds_hold s \<Longrightarrow> bounds_hold (fst (simulate_step e s))"
  by (simp add: bounds_hold_def step_price_bounds step_keeps_scores)

lemma run_keeps_bounds: "bounds_hold s \<Longrightarrow> bounds_hold (run_steps es s)"
  by (induction es arbitrary: s) (simp_all add: step_keeps_bounds)

subsection \<open>The loop over the orders\<close>

lemma update_order_skipped: "skipped ord \<Longrightarrow> update_order e today ord i = Inr (ord, [], i)"
  by (auto simp: skipped_def update_order_def)

lemma loop_length: "length (fst (update_orders_loop e today os i)) = length os"
  by (induction os arbitrary: i) (simp_all add: split_beta split: sum.splits)

lemma loop_nth:
  "k < length os \<Longrightarrow>
     fst (update_orders_loop e today os i) ! k = os ! k \<or>
     (\<exists>j. \<exists>r. update_order e today (os ! k) j = Inr r \<and>
        fst (update_orders_loop e today os i) ! k = fst r)"
proof (induction os arbitrary: i k)
  case Nil
  then show ?case by simp
next
  case (Cons ord rest)
  show ?case
  proof (cases "update_order e today ord i")
    case (Inl err)
    then show ?thesis by simp
  next
    case (Inr r)
    obtain ord' entries j where r: "r = (ord', entries, j)" by (cases r)
    show ?thesis
    proof (cases k)
      case 0
      then show ?thesis using Inr r by (auto split: prod.splits)
    next
      case (Suc k')
      then have "k' < length rest" using Cons.prems by simp
      from Cons.IH [OF this, of j] show ?thesis using Inr r Suc
        by (auto split: prod.splits)
    qed
  qed
qed

lemma loop_nth_skipped:
  assumes "k < length os" "skipped (os ! k)"
  shows "fst (update_orders_loop e today os i) ! k = os ! k"
  using loop_nth [OF assms(1), of e today i] update_order_skipped [OF assms(2), of e today]
  by auto

lemma step_orders:
  "orders (fst (simulate_step e s)) = orders s \<or>
   (\<exists>i. orders (fst (simulate_step e s)) =
      fst (update_orders_loop e (add_days (simulation_date s) 1) (orders s) i))"
proof (cases "update_market_conditions e (begin_step s)")
  case (Pair s1 err1)
  have s1: "orders s1 = orders s" "simulation_date s1 = add_days (simulation_date s) 1"
    using market_step_frame(1,4) [of e "begin_step s"] Pair by (simp_all add: begin_step_simps)
  show ?thesis
  proof (cases err1)
    case (Some err)
    then show ?thesis using Pair s1 by (simp add: simulate_step_def and_then_simps)
  next
    case None
    have "orders (fst (simulate_step e s)) = orders (fst (update_orders e s1))"
      using Pair None unfolding simulate_step_def
      by (simp add: and_then_simps and_then_proj [where g = orders] maybe_suppliers_frame
          ensure_contract_frame)
    also have "\<dots> = fst (update_orders_loop e (add_days (simulation_date s) 1) (orders s) (drawn s1))"
      using s1 by (simp add: update_orders_def split_beta)
    finally show ?thesis by blast
  qed
qed

lemma step_orders_length: "length (orders (fst (simulate_step e s))) = length (orders s)"
  using step_orders [of e s] by (auto simp: loop_length)

lemma step_order_skipped:
  assumes "k < length (orders s)" "skipped (orders s ! k)"
  shows "orders (fst (simulate_step e s)) ! k = orders s ! k"
  using step_orders [of e s] loop_nth_skipped [OF assms] by auto

lemma run_orders_terminal:
  "k < length (orders s) \<Longrightarrow> o_status (orders s ! k) \<in> {''delivered'', ''cancelled''} \<Longrightarrow>
     length (orders (run_steps es s)) = length (orders s) \<and>
     orders (run_steps es s) ! k = orders s ! k"
proof (induction es arbitrary: s)
  case Nil
  then show ?case by simp
next
  case (Cons e es)
  have sk: "skipped (orders s ! k)" using Cons.prems(2) by (simp add: skipped_def)
  have a: "k < length (orders (fst (simulate_step e s)))"
    using Cons.prems(1) by (simp add: step_orders_length)
  have b: "orders (fst (simulate_step e s)) ! k = orders s ! k"
    using step_order_skipped [OF Cons.prems(1) sk] .
  from Cons.IH [OF a] b Cons.prems(2) show ?case
    by (simp add: step_orders_length)
qed




subsection \<open>The change-log and the capacity\<close>

lemma changes_reset: "simulate_step e (s\<lparr>changes := c\<rparr>) = simulate_step e s"
  by (simp add: simulate_step_def begin_step_def)

lemma drift_capacity_positive: "2 \<le> old \<Longrightarrow> 1 \<le> drift_capacity e old i"
proof -
  assume old: "2 \<le> old"
  have u: "- 0.1 \<le> uniform e (- 0.1) 0.1 i" using uniform_bounds [of "- 0.1" "0.1" e i] by simp
  have "real_of_int old * 0.9 \<le> real_of_int old * (1 + uniform e (- 0.1) 0.1 i)"
    using u old by (intro mult_left_mono) auto
  moreover have "1 \<le> real_of_int old * 0.9" using old by simp
  ultimately have x: "1 \<le> real_of_int old * (1 + uniform e (- 0.1) 0.1 i)" by linarith
  then have "1 \<le> \<lfloor>real_of_int old * (1 + uniform e (- 0.1) 0.1 i)\<rfloor>" by (simp add: le_floor_iff)
  then show ?thesis using x by (simp add: drift_capacity_def py_int_def)
qed

lemma drift_supplier_capacity:
  "drift_supplier e sp ty i = Inr (sp', old, new) \<Longrightarrow>
     capacity_kg_per_year sp' = capacity_kg_per_year sp \<or>
     capacity_kg_per_year sp' = drift_capacity e (capacity_kg_per_year sp) i"
  by (auto simp: drift_supplier_def split: if_splits option.splits)

subsection \<open>The example market, evaluated\<close>

lemmas ex_defs = eighths_def draws_from_def ex_date_def ex_env_def ex_supplier_def ex_order_def
  ex_market_def ex_sim_def ex_parse_def ex_ymd_def two_digits_def ex_busy_def ex_quiet_def

lemmas random_defs = py_random_def uniform_def randbelow_def randint_def choice_def

lemmas market_defs = update_market_conditions_def draw_change_pct_def clamp_price_def
  push_history_def recompute_trend_def update_factors_def update_forecast_def
  resample_factor_def py_round_def round_half_even_def last_n_def

lemmas order_defs = update_orders_def update_order_def advance_order_def delivery_str_def
  parse_delivery_def set_delivery_def days_between_def add_days_def day_micros_def

lemmas supplier_defs = update_suppliers_def maybe_update_suppliers_def drift_supplier_def
  drift_score_def drift_capacity_def log_supplier_def py_int_def

lemmas contract_defs = ensure_active_contract_def active_contracts_def
  create_sample_contract_def sample_contract_def contract_price_def

lemmas step_defs = simulate_step_def and_then_def begin_step_def no_changes_def

lemma ex_busy_step: "simulate_step (ex_env ex_busy) ex_sim = (ex_after_busy, None)"
  by (simp add: ex_defs ex_after_busy_def ex_contract_def random_defs market_defs step_defs
      order_defs supplier_defs contract_defs Let_def)


lemma ex_unparsable_step: "snd (simulate_step (ex_env ex_quiet) ex_unparsable) = Some ValueError"
  by (simp add: ex_defs ex_unparsable_def random_defs market_defs step_defs
      order_defs supplier_defs contract_defs Let_def)

subsection \<open>C1: the price and the scores stay within their bounds\<close>

text \<open>
  C1. In a state whose average price is in [3.0, 10.0] and whose suppliers' quality,
  reliability and sustainability scores are in [5.0, 10.0], the same holds after a call
  of \<^verbatim>\<open>simulate_step\<close>, whatever it draws and whether or not it raises, and so after
  any number of calls.
\<close>

theorem bounds_preserved:
  assumes "bounds_hold s"
  shows "bounds_hold (fst (simulate_step e s)) \<and> bounds_hold (run_steps es s)"
  using assms by (simp add: step_keeps_bounds run_keeps_bounds)

theorem bounds_preserved_witness:
  "bounds_hold ex_sim \<and>
   bounds_hold (fst (simulate_step (ex_env ex_busy) ex_sim)) \<and>
   map quality_score (suppliers (fst (simulate_step (ex_env ex_busy) ex_sim))) = [Some 8.4] \<and>
   bounds_hold (run_steps [ex_env ex_busy, ex_env ex_quiet] ex_sim)"
proof -
  have h: "bounds_hold ex_sim"
    by (simp add: bounds_hold_def price_in_bounds_def scores_in_bounds_def score_in_bounds_def
        ex_sim_def ex_market_def ex_supplier_def)
  have q: "map quality_score (suppliers (fst (simulate_step (ex_env ex_busy) ex_sim))) = [Some 8.4]"
    by (simp add: ex_busy_step ex_after_busy_def)
  from bounds_preserved [OF h, of "ex_env ex_busy" "[ex_env ex_busy, ex_env ex_quiet]"] h q
  show ?thesis by simp
qed

subsection \<open>C5: the price history holds at most thirty points\<close>

text \<open>
  C5. When the price history has at most 30 points, after \<^verbatim>\<open>simulate_step\<close> it still has
  at most 30: it is the last 30 points of the old history followed by the new point, so
  the oldest point goes first, and the new point (the date of the step and the new
  average price) is its last.
\<close>

theorem price_history_capacity:
  assumes "length (price_history (market_conditions s)) \<le> 30"
  shows "length (price_history (market_conditions (fst (simulate_step e s)))) \<le> 30 \<and>
    price_history (market_conditions (fst (simulate_step e s))) =
      last_n 30 (price_history (market_conditions s) @
        [(isoformat e (add_days (simulation_date s) 1),
          average_price (market_conditions (fst (simulate_step e s))))]) \<and>
    last (price_history (market_conditions (fst (simulate_step e s)))) =
      (isoformat e (add_days (simulation_date s) 1),
       average_price (market_conditions (fst (simulate_step e s))))"
  using assms
  by (simp add: step_market market_step_history begin_step_simps push_history_eq last_n_def)

theorem price_history_capacity_witness:
  "length (price_history (market_conditions ex_full_history)) \<le> 30 \<and>
   length (price_history (market_conditions (fst (simulate_step (ex_env ex_quiet) ex_full_history)))) = 30 \<and>
   price_history (market_conditions ex_full_history) ! 0 = (''2024-12-02'', 4) \<and>
   price_history (market_conditions ex_full_history) ! 1 = (''2024-12-03'', 4.01) \<and>
   price_history (market_conditions (fst (simulate_step (ex_env ex_quiet) ex_full_history))) ! 0 =
     (''2024-12-03'', 4.01) \<and>
   fst (last (price_history (market_conditions (fst (simulate_step (ex_env ex_quiet) ex_full_history))))) =
     ''2025-01-02T00:00:00''"
proof -
  let ?h = "price_history (market_conditions ex_full_history)"
  have len: "length ?h = 30" by (simp add: ex_full_history_def)
  have h0: "?h ! 0 = (''2024-12-02'', 4)" by (simp add: ex_full_history_def two_digits_def)
  have h1: "?h ! 1 = (''2024-12-03'', 4.01)" by (simp add: ex_full_history_def two_digits_def)
  have d: "isoformat (ex_env ex_quiet) (add_days (simulation_date ex_full_history) 1) =
      ''2025-01-02T00:00:00''"
    by (simp add: ex_full_history_def ex_defs add_days_def day_micros_def)
  have nth: "\<And>pt. last_n 30 (?h @ [pt]) ! 0 = ?h ! 1"
    using len by (simp add: last_n_def nth_append)
  have l: "length ?h \<le> 30" using len by simp
  from price_history_capacity [OF l, of "ex_env ex_quiet"] len h0 h1 d nth
  show ?thesis by (simp add: last_n_def)
qed

subsection \<open>C6: delivered and cancelled orders are left alone\<close>

text \<open>
  C6. An order whose status is delivered or cancelled keeps its status (it is not
  changed at all) through any number of calls of \<^verbatim>\<open>simulate_step\<close>.
\<close>

theorem terminal_orders_absorbing:
  assumes "k < length (orders s)"
    and "o_status (orders s ! k) \<in> {''delivered'', ''cancelled''}"
  shows "length (orders (run_steps es s)) = length (orders s) \<and>
    orders (run_steps es s) ! k = orders s ! k \<and>
    o_status (orders (run_steps es s) ! k) = o_status (orders s ! k)"
  using run_orders_terminal [OF assms, of es] by simp

theorem terminal_orders_absorbing_witness:
  "0 < length (orders ex_delivered) \<and>
   o_status (orders ex_delivered ! 0) = ''delivered'' \<and>
   o_status (orders (run_steps [ex_env ex_busy, ex_env ex_quiet, ex_env ex_busy] ex_delivered) ! 0) =
     ''delivered''"
proof -
  have a: "0 < length (orders ex_delivered)" by (simp add: ex_delivered_def ex_sim_def)
  have b: "o_status (orders ex_delivered ! 0) = ''delivered''"
    by (simp add: ex_delivered_def ex_sim_def)
  then have c: "o_status (orders ex_delivered ! 0) \<in> {''delivered'', ''cancelled''}" by simp
  from terminal_orders_absorbing [OF a c, of "[ex_env ex_busy, ex_env ex_quiet, ex_env ex_busy]"]
    a b show ?thesis by simp
qed

subsection \<open>C4: the change-log is the log of one step\<close>

text \<open>
  C4. \<^verbatim>\<open>simulate_step\<close> empties the change-log before its first sub-step, so nothing of
  the log it finds survives: the state it leaves, change-log included, is the same
  whatever the log held before. \<^verbatim>\<open>get_changes\<close> leaves the simulator as it was, so a
  second call right after the first returns an equal snapshot.
\<close>

theorem change_log_per_step:
  "simulate_step e (s\<lparr>changes := c\<rparr>) = simulate_step e s \<and>
   changes (begin_step s) = no_changes \<and>
   fst (get_changes (fst (simulate_step e (s\<lparr>changes := c\<rparr>)))) =
     changes (fst (simulate_step e (s\<lparr>changes := no_changes\<rparr>))) \<and>
   snd (get_changes s) = s \<and>
   fst (get_changes (snd (get_changes s))) = fst (get_changes s)"
  by (simp add: changes_reset begin_step_simps get_changes_def)

subsection \<open>The turn of a pending order\<close>

lemma days_10: "days_between (add_days d 10) (add_days d 1) = Inr 9"
  by (simp add: days_between_def add_days_def day_micros_def)










subsection \<open>C2: a pending order ten days from delivery\<close>





subsection \<open>C3: orders without a date, orders with a date that does not parse\<close>

text \<open>
  C3 does not hold as stated: a date string that neither parser accepts is not skipped.
  The ValueError of \<^verbatim>\<open>strptime\<close> leaves \<^verbatim>\<open>simulate_step\<close>.
\<close>

theorem unparsable_date_raises:
  "map delivery_str (orders ex_unparsable) = [Some ''next week''] \<and>
   fromisoformat (ex_env ex_quiet) ''next week'' = None \<and>
   strptime_ymd (ex_env ex_quiet) ''next week'' = None \<and>
   snd (simulate_step (ex_env ex_quiet) ex_unparsable) = Some ValueError"
  by (simp add: ex_unparsable_step)
     (simp add: ex_unparsable_def ex_sim_def ex_order_def ex_env_def ex_parse_def delivery_str_def)

text \<open>
  C3, amended. An order with neither delivery-date key is skipped by the order-lifecycle
  step: its turn of the loop raises nothing, draws nothing, logs nothing and leaves the
  order as it is, so the order is unchanged after \<^verbatim>\<open>simulate_step\<close>.
\<close>

theorem undated_order_skipped:
  assumes "k < length (orders s)"
    and "expected_delivery (orders s ! k) = None"
    and "expected_delivery_date (orders s ! k) = None"
  shows "update_order e today (orders s ! k) i = Inr (orders s ! k, [], i) \<and>
    update_orders_loop e today (orders s ! k # rest) i =
      (case update_orders_loop e today rest i of
         (rest', logs, j, err) \<Rightarrow> (orders s ! k # rest', logs, j, err)) \<and>
    orders (fst (simulate_step e s)) ! k = orders s ! k"
proof -
  have sk: "skipped (orders s ! k)" using assms(2,3) by (simp add: skipped_def delivery_str_def)
  show ?thesis
    using update_order_skipped [OF sk] step_order_skipped [OF assms(1) sk] by simp
qed

theorem undated_order_skipped_witness:
  "0 < length (orders ex_undated) \<and>
   expected_delivery (orders ex_undated ! 0) = None \<and>
   expected_delivery_date (orders ex_undated ! 0) = None \<and>
   orders (fst (simulate_step (ex_env ex_busy) ex_undated)) ! 0 = orders ex_undated ! 0"
proof -
  have a: "0 < length (orders ex_undated)" by (simp add: ex_undated_def)
  have b: "expected_delivery (orders ex_undated ! 0) = None"
    by (simp add: ex_undated_def ex_order_def)
  have c: "expected_delivery_date (orders ex_undated ! 0) = None"
    by (simp add: ex_undated_def ex_order_def)
  from undated_order_skipped [OF a b c, of "ex_env ex_busy"] a b c show ?thesis by simp
qed

subsection \<open>The supplier list after the drift\<close>

lemma update_suppliers_shape:
  "suppliers (fst (update_suppliers e s)) = suppliers s \<or>
   (\<exists>j sp' old new ty. j < length (suppliers s) \<and>
      drift_supplier e (suppliers s ! j) ty (drawn s + 2) = Inr (sp', old, new) \<and>
      suppliers (fst (update_suppliers e s)) = (suppliers s)[j := sp'])"
proof (cases "0 < length (suppliers s)")
  case False
  then show ?thesis by (simp add: update_suppliers_def)
next
  case True
  define j where "j = nat (randint e 0 (int (length (suppliers s)) - 1) (drawn s))"
  define ty where "ty = choice e [''quality'', ''reliability'', ''sustainability'', ''capacity''] (drawn s + 1)"
  have "randint e 0 (int (length (suppliers s)) - 1) (drawn s) \<le> int (length (suppliers s)) - 1"
    using True randint_bounds [of 0 "int (length (suppliers s)) - 1" e "drawn s"] by simp
  then have j: "j < length (suppliers s)" using True unfolding j_def by linarith
  show ?thesis
  proof (cases "drift_supplier e (suppliers s ! j) ty (drawn s + 2)")
    case (Inl err)
    then show ?thesis using True by (simp add: update_suppliers_def Let_def j_def ty_def)
  next
    case (Inr r)
    obtain sp' old new where r: "r = (sp', old, new)" by (cases r)
    have "suppliers (fst (update_suppliers e s)) = (suppliers s)[j := sp']"
      using Inr r True by (simp add: update_suppliers_def Let_def j_def ty_def)
    then show ?thesis using j Inr r by blast
  qed
qed

lemma update_suppliers_capacity:
  assumes "k < length (suppliers s)" "2 \<le> capacity_kg_per_year (suppliers s ! k)"
  shows "1 \<le> capacity_kg_per_year (suppliers (fst (update_suppliers e s)) ! k)"
proof -
  from update_suppliers_shape [of e s] show ?thesis
  proof
    assume "suppliers (fst (update_suppliers e s)) = suppliers s"
    then show ?thesis using assms by simp
  next
    assume "\<exists>j sp' old new ty. j < length (suppliers s) \<and>
      drift_supplier e (suppliers s ! j) ty (drawn s + 2) = Inr (sp', old, new) \<and>
      suppliers (fst (update_suppliers e s)) = (suppliers s)[j := sp']"
    then obtain j sp' old new ty where j: "j < length (suppliers s)"
      and d: "drift_supplier e (suppliers s ! j) ty (drawn s + 2) = Inr (sp', old, new)"
      and u: "suppliers (fst (update_suppliers e s)) = (suppliers s)[j := sp']" by blast
    show ?thesis
    proof (cases "j = k")
      case False
      then show ?thesis using u assms by simp
    next
      case True
      from drift_supplier_capacity [OF d] drift_capacity_positive [OF assms(2), of e "drawn s + 2"]
      show ?thesis using u True assms by auto
    qed
  qed
qed

lemma update_suppliers_length: "length (suppliers (fst (update_suppliers e s))) = length (suppliers s)"
  using update_suppliers_shape [of e s] by auto

lemma step_suppliers:
  "suppliers (fst (simulate_step e s)) = suppliers s \<or>
   (\<exists>t. suppliers t = suppliers s \<and>
      suppliers (fst (simulate_step e s)) = suppliers (fst (update_suppliers e t)))"
proof -
  obtain s2 err2 where r2: "and_then (update_market_conditions e (begin_step s)) (update_orders e) = (s2, err2)"
    by (cases "and_then (update_market_conditions e (begin_step s)) (update_orders e)")
  have "suppliers (fst (and_then (update_market_conditions e (begin_step s)) (update_orders e))) =
      suppliers (fst (update_market_conditions e (begin_step s)))"
    by (simp add: and_then_proj [where g = suppliers] orders_step_frame)
  then have s2: "suppliers s2 = suppliers s"
    using r2 by (simp add: market_step_frame begin_step_simps)
  show ?thesis
  proof (cases err2)
    case (Some err)
    then show ?thesis using r2 s2 by (simp add: simulate_step_def and_then_simps)
  next
    case None
    have "suppliers (fst (simulate_step e s)) = suppliers (fst (maybe_update_suppliers e s2))"
      using r2 None unfolding simulate_step_def
      by (simp add: and_then_simps and_then_proj [where g = suppliers] ensure_contract_frame)
    then show ?thesis
      using s2 by (cases "py_random e (drawn s2) < 0.2")
        (auto simp: maybe_update_suppliers_def intro: exI [of _ "s2\<lparr>drawn := drawn s2 + 1\<rparr>"])
  qed
qed

subsection \<open>C9: the capacity after a perturbation\<close>

text \<open>
  C9 does not hold as stated: a capacity of 1 that is perturbed downwards is truncated
  to 0, which is not positive.
\<close>

theorem capacity_may_reach_zero:
  "map capacity_kg_per_year (suppliers ex_small_capacity) = [1] \<and>
   snd (update_suppliers (ex_env [0, 7, 0]) ex_small_capacity) = None \<and>
   map capacity_kg_per_year (suppliers (fst (update_suppliers (ex_env [0, 7, 0]) ex_small_capacity))) = [0]"
  by (simp add: ex_defs random_defs supplier_defs ex_small_capacity_def Let_def)

text \<open>
  C9, amended. A supplier whose capacity is an integer of at least 2 has a positive
  integer capacity after the supplier-drift sub-step, and so after \<^verbatim>\<open>simulate_step\<close>:
  the perturbed value is the integer part of at least 0.9 times the capacity.
\<close>

theorem capacity_stays_positive:
  assumes "k < length (suppliers s)"
    and "2 \<le> capacity_kg_per_year (suppliers s ! k)"
  shows "1 \<le> drift_capacity e (capacity_kg_per_year (suppliers s ! k)) i \<and>
    length (suppliers (fst (update_suppliers e s))) = length (suppliers s) \<and>
    1 \<le> capacity_kg_per_year (suppliers (fst (update_suppliers e s)) ! k) \<and>
    1 \<le> capacity_kg_per_year (suppliers (fst (simulate_step e s)) ! k)"
proof -
  have "1 \<le> capacity_kg_per_year (suppliers (fst (simulate_step e s)) ! k)"
    using step_suppliers [of e s] update_suppliers_capacity assms by auto
  then show ?thesis
    using drift_capacity_positive [OF assms(2)] update_suppliers_length
      update_suppliers_capacity [OF assms] by simp
qed

theorem capacity_stays_positive_witness:
  "0 < length (suppliers ex_sim) \<and>
   capacity_kg_per_year (suppliers ex_sim ! 0) = 50000 \<and>
   map capacity_kg_per_year (suppliers (fst (update_suppliers (ex_env [0, 7, 0]) ex_sim))) = [45000] \<and>
   1 \<le> capacity_kg_per_year (suppliers (fst (update_suppliers (ex_env [0, 7, 0]) ex_sim)) ! 0)"
proof -
  have a: "0 < length (suppliers ex_sim)" by (simp add: ex_sim_def)
  have b: "capacity_kg_per_year (suppliers ex_sim ! 0) = 50000"
    by (simp add: ex_sim_def ex_supplier_def)
  then have c: "2 \<le> capacity_kg_per_year (suppliers ex_sim ! 0)" by simp
  have d: "map capacity_kg_per_year (suppliers (fst (update_suppliers (ex_env [0, 7, 0]) ex_sim))) = [45000]"
    by (simp add: ex_defs random_defs supplier_defs Let_def)
  from capacity_stays_positive [OF a c, of "ex_env [0, 7, 0]"] a b d show ?thesis by simp
qed

subsection \<open>C10: updating the delivery date of an order that has only the legacy key\<close>

lemma delivery_loop_first:
  assumes "k < length os" "o_id (os ! k) = oid" "\<forall>j<k. o_id (os ! j) \<noteq> oid"
  shows "update_delivery_loop oid v os =
    (case expected_delivery (os ! k) of
       None \<Rightarrow> Inl (KeyError ''expected_delivery'')
     | Some old \<Rightarrow> Inr (os[k := store_delivery (os ! k) v], [Update_delivery oid old v]))"
  using assms
proof (induction os arbitrary: k)
  case Nil
  then show ?case by simp
next
  case (Cons ord rest)
  show ?case
  proof (cases k)
    case 0
    then show ?thesis using Cons.prems by (simp split: option.splits)
  next
    case (Suc k')
    have ne: "o_id ord \<noteq> oid" using Cons.prems(3) Suc by auto
    have "\<forall>j<k'. o_id (rest ! j) \<noteq> oid" using Cons.prems(3) Suc by auto
    from Cons.IH [OF _ _ this] Cons.prems(1,2) Suc ne show ?thesis
      by (simp split: option.splits)
  qed
qed

text \<open>
  C10 does not hold as stated: orders may share an ID, and the loop stops at the first
  order that has it. For a legacy-only order behind an order of the same ID that has the
  key \<^verbatim>\<open>expected_delivery\<close>, the call raises nothing and updates the order in front.
\<close>

theorem legacy_order_behind_same_id:
  "o_id (orders ex_same_id ! 1) = ''O1'' \<and>
   expected_delivery (orders ex_same_id ! 1) = None \<and>
   expected_delivery_date (orders ex_same_id ! 1) = Some ''2025-01-11'' \<and>
   snd (update_order_expected_delivery ex_same_id ''O1'' ''2025-02-01'') = None \<and>
   map expected_delivery (orders (fst (update_order_expected_delivery ex_same_id ''O1'' ''2025-02-01''))) =
     [Some ''2025-02-01'', None] \<and>
   ch_orders (changes (fst (update_order_expected_delivery ex_same_id ''O1'' ''2025-02-01''))) =
     [Update_delivery ''O1'' ''2025-01-11T00:00:00'' ''2025-02-01'']"
  by (simp add: ex_defs ex_same_id_def update_order_expected_delivery_def store_delivery_def
      no_changes_def)

text \<open>
  C10, amended. For the first stored order with a given ID: when it lacks the key
  \<^verbatim>\<open>expected_delivery\<close> (it carries the legacy key only, or no date), the call with its
  ID raises KeyError before any mutation, the order list and the change-log staying as
  they were; when it has the key, the call sets it, logs the old and the new value and
  raises nothing.
\<close>

theorem update_delivery_first_order:
  assumes "k < length (orders s)"
    and "o_id (orders s ! k) = oid"
    and "\<forall>j<k. o_id (orders s ! j) \<noteq> oid"
  shows "(expected_delivery (orders s ! k) = None \<longrightarrow>
       update_order_expected_delivery s oid v = (s, Some (KeyError ''expected_delivery''))) \<and>
    (\<forall>old. expected_delivery (orders s ! k) = Some old \<longrightarrow>
       update_order_expected_delivery s oid v =
         (s\<lparr>orders := (orders s)[k := (orders s ! k)\<lparr>expected_delivery := Some v\<rparr>],
            changes := (changes s)\<lparr>ch_orders := ch_orders (changes s) @
              [Update_delivery oid old v]\<rparr>\<rparr>, None))"
  using delivery_loop_first [OF assms, of v]
  by (auto simp: update_order_expected_delivery_def store_delivery_def)

theorem update_delivery_first_order_witness:
  "0 < length (orders ex_sim) \<and>
   o_id (orders ex_sim ! 0) = ''O1'' \<and>
   expected_delivery (orders ex_sim ! 0) = None \<and>
   expected_delivery_date (orders ex_sim ! 0) = Some ''2025-01-11'' \<and>
   update_order_expected_delivery ex_sim ''O1'' ''2025-02-01'' =
     (ex_sim, Some (KeyError ''expected_delivery''))"
proof -
  have a: "0 < length (orders ex_sim)" by (simp add: ex_sim_def)
  have b: "o_id (orders ex_sim ! 0) = ''O1''" by (simp add: ex_sim_def ex_order_def)
  have c: "\<forall>j<0. o_id (orders ex_sim ! j) \<noteq> ''O1''" by simp
  have d: "expected_delivery (orders ex_sim ! 0) = None" by (simp add: ex_sim_def ex_order_def)
  have f: "expected_delivery_date (orders ex_sim ! 0) = Some ''2025-01-11''"
    by (simp add: ex_sim_def ex_order_def)
  from update_delivery_first_order [OF a b c, of "''2025-02-01''"] a b d f show ?thesis by simp
qed

subsection \<open>The contracts after a step\<close>















subsection \<open>C8: the fallback contract\<close>





subsection \<open>Facts about the store\<close>

lemma closed_below_nth:
  "closed_below m h = (m \<le> length h \<and> (\<forall>a<m. list_all (points_below m) (vals (h ! a))))"
  by (auto simp: closed_below_def list_all_length)

lemma same_below_nth:
  "same_below m h h' = (m \<le> length h \<and> m \<le> length h' \<and> (\<forall>a<m. h' ! a = h ! a))"
  by (auto simp: same_below_def list_eq_iff_nth_eq)

lemma view_same:
  assumes "closed_below m h" "same_below m h h'"
  shows "points_below m v \<Longrightarrow> view n h' v = view n h v"
proof (induction n arbitrary: v)
  case 0
  then show ?case by simp
next
  case (Suc n)
  show ?case
  proof (cases v)
    case (PRef a)
    then have a: "a < m" using Suc.prems by (simp add: points_below_def)
    have eq: "h' ! a = h ! a" and la: "a < length h" "a < length h'"
      using assms(2) a by (auto simp: same_below_nth)
    have ok: "list_all (points_below m) (vals (h ! a))"
      using assms(1) a by (simp add: closed_below_nth)
    show ?thesis
    proof (cases "h ! a")
      case (PList vs)
      then have "\<forall>x\<in>set vs. view n h' x = view n h x"
        using ok Suc.IH by (simp add: list_all_iff)
      then show ?thesis using PRef PList eq la by simp
    next
      case (PDict kvs)
      then have "\<forall>p\<in>set kvs. view n h' (snd p) = view n h (snd p)"
        using ok Suc.IH by (simp add: list_all_iff)
      then show ?thesis using PRef PDict eq la by (auto simp: case_prod_beta)
    qed
  qed simp_all
qed

lemma vals_shift_obj: "vals (shift_obj k obj) = map (shift k) (vals obj)"
  by (cases obj) (simp_all add: case_prod_beta)

lemma deepcopy_simps:
  "fst (deepcopy h v) = shift (length h) v"
  "length (snd (deepcopy h v)) = 2 * length h"
  "a < length h \<Longrightarrow> snd (deepcopy h v) ! a = h ! a"
  "a < length h \<Longrightarrow> snd (deepcopy h v) ! (a + length h) = shift_obj (length h) (h ! a)"
  by (simp_all add: deepcopy_def nth_append)

lemma deepcopy_same_below: "same_below (length h) h (snd (deepcopy h v))"
  by (simp add: same_below_nth deepcopy_simps)

lemma view_copy:
  assumes "closed_below m h"
  shows "points_below m v \<Longrightarrow> view n (snd (deepcopy h v0)) (shift (length h) v) = view n h v"
proof (induction n arbitrary: v)
  case 0
  then show ?case by (cases v) simp_all
next
  case (Suc n)
  let ?h' = "snd (deepcopy h v0)"
  show ?case
  proof (cases v)
    case (PRef a)
    then have a: "a < m" using Suc.prems by (simp add: points_below_def)
    then have la: "a < length h" using assms by (simp add: closed_below_nth)
    have cell: "?h' ! (a + length h) = shift_obj (length h) (h ! a)"
      using la by (rule deepcopy_simps(4))
    have ok: "list_all (points_below m) (vals (h ! a))"
      using assms a by (simp add: closed_below_nth)
    show ?thesis
    proof (cases "h ! a")
      case (PList vs)
      then have "\<forall>x\<in>set vs. view n ?h' (shift (length h) x) = view n h x"
        using ok Suc.IH by (simp add: list_all_iff)
      then show ?thesis using PRef PList cell la by (simp add: deepcopy_simps(2))
    next
      case (PDict kvs)
      then have "\<forall>p\<in>set kvs. view n ?h' (shift (length h) (snd p)) = view n h (snd p)"
        using ok Suc.IH by (simp add: list_all_iff)
      then show ?thesis using PRef PDict cell la
        by (auto simp: deepcopy_simps(2) case_prod_beta)
    qed
  qed simp_all
qed

lemma closed_below_same: "closed_below m h \<Longrightarrow> same_below m h h' \<Longrightarrow> closed_below m h'"
  by (simp add: closed_below_nth same_below_nth)

lemma view_copy_of_changed:
  assumes "closed_below m h" "same_below m h h'" "r < m"
  shows "view n (snd (deepcopy h' (PRef r))) (fst (deepcopy h' (PRef r))) = view n h (PRef r)"
proof -
  have pb: "points_below m (PRef r)" using assms(3) by (simp add: points_below_def)
  have "view n (snd (deepcopy h' (PRef r))) (shift (length h') (PRef r)) = view n h' (PRef r)"
    using closed_below_same [OF assms(1,2)] pb by (rule view_copy)
  also have "\<dots> = view n h (PRef r)" using assms(1,2) pb by (rule view_same)
  finally show ?thesis by (simp add: deepcopy_simps(1))
qed

lemma reach_copy_fresh:
  assumes "reach (snd (deepcopy h v0)) v a" "v = PRef (r + length h)"
  shows "length h \<le> a"
  using assms
proof (induction rule: reach.induct)
  case (reach_here a)
  then show ?case by simp
next
  case (reach_step v a b)
  then have lo: "length h \<le> a" by simp
  have "reach (snd (deepcopy h v0)) v a" by fact
  then have "a < length (snd (deepcopy h v0))" by (induction rule: reach.induct) simp_all
  then have hi: "a - length h < length h" using lo by (simp add: deepcopy_simps(2))
  have "snd (deepcopy h v0) ! ((a - length h) + length h) = shift_obj (length h) (h ! (a - length h))"
    using hi by (rule deepcopy_simps(4))
  then have "PRef b \<in> set (map (shift (length h)) (vals (h ! (a - length h))))"
    using reach_step.hyps(2) lo by (simp add: vals_shift_obj)
  then obtain x where "PRef b = shift (length h) x" by auto
  then show ?case by (cases x) simp_all
qed

lemma same_below_update:
  "same_below m h h' \<Longrightarrow> m \<le> a \<Longrightarrow> same_below m h (h'[a := obj])"
  by (simp add: same_below_def)

lemma deepcopy_isolated:
  assumes "wf_store h" "r < length h"
  shows "copy_isolated (\<lambda>g. deepcopy g (PRef r)) r h"
proof -
  have c: "closed_below (length h) h" using assms(1) by (simp add: wf_store_def)
  have same: "same_below (length h) h h" using c by (simp add: same_below_nth closed_below_nth)
  have fresh: "\<And>a. reach (snd (deepcopy h (PRef r))) (fst (deepcopy h (PRef r))) a \<Longrightarrow> length h \<le> a"
    using reach_copy_fresh [of h "PRef r" "PRef (r + length h)" _ r] by (simp add: deepcopy_simps(1))
  have upd: "\<And>a obj. reach (snd (deepcopy h (PRef r))) (fst (deepcopy h (PRef r))) a \<Longrightarrow>
      same_below (length h) h ((snd (deepcopy h (PRef r)))[a := obj])"
    using same_below_update [OF deepcopy_same_below fresh] by simp
  have v: "\<And>h' n. same_below (length h) h h' \<Longrightarrow>
      view n (snd (deepcopy h' (PRef r))) (fst (deepcopy h' (PRef r))) = view n h (PRef r)"
    using view_copy_of_changed [OF c _ assms(2)] by simp
  show ?thesis
    unfolding copy_isolated_def using deepcopy_same_below fresh upd v [OF same] v by simp
qed

subsection \<open>C7: the accessors hand out independent copies\<close>

text \<open>
  C7. In a well-formed store, each of \<^verbatim>\<open>get_suppliers\<close>, \<^verbatim>\<open>get_contracts\<close>,
  \<^verbatim>\<open>get_orders\<close> and \<^verbatim>\<open>get_market_conditions\<close> leaves the objects of the simulator as
  they are and returns a structure that reads like the simulator's and whose objects are
  all new: a write to any object reachable from the returned value changes no object of
  the simulator. Whatever the caller then does to the objects that did not exist before
  the call, the same accessor called again returns a structure that reads, to any
  depth, like the one it returned the first time.
\<close>

theorem accessor_copies_isolated:
  assumes "wf_store h"
    and "suppliers_at self < length h"
    and "contracts_at self < length h"
    and "orders_at self < length h"
    and "market_conditions_at self < length h"
  shows "copy_isolated (get_suppliers self) (suppliers_at self) h \<and>
    copy_isolated (get_contracts self) (contracts_at self) h \<and>
    copy_isolated (get_orders self) (orders_at self) h \<and>
    copy_isolated (get_market_conditions self) (market_conditions_at self) h"
  using deepcopy_isolated [OF assms(1)] assms(2-5)
  by (simp add: get_suppliers_def [abs_def] get_contracts_def [abs_def] get_orders_def [abs_def]
      get_market_conditions_def [abs_def])

theorem accessor_copies_isolated_witness:
  "wf_store ex_store \<and>
   suppliers_at ex_self < length ex_store \<and> contracts_at ex_self < length ex_store \<and>
   orders_at ex_self < length ex_store \<and> market_conditions_at ex_self < length ex_store \<and>
   fst (get_suppliers ex_self ex_store) = PRef 7 \<and>
   view 3 (snd (get_suppliers ex_self ex_store)) (PRef 7) = ex_view \<and>
   same_below (length ex_store) ex_store ex_mutated \<and>
   view 3 ex_mutated (PRef 7) =
     ListT [DictT [(''id'', Leaf (PStr ''S1'')), (''name'', Leaf (PStr ''renamed''))],
            DictT [(''id'', Leaf (PStr ''S1'')), (''name'', Leaf (PStr ''renamed''))]] \<and>
   view 3 (snd (get_suppliers ex_self ex_mutated)) (fst (get_suppliers ex_self ex_mutated)) = ex_view"
proof -
  have wf: "wf_store ex_store"
    by (simp add: wf_store_def closed_below_def ex_store_def points_below_def)
  have r: "suppliers_at ex_self < length ex_store" "contracts_at ex_self < length ex_store"
    "orders_at ex_self < length ex_store" "market_conditions_at ex_self < length ex_store"
    by (simp_all add: ex_self_def ex_store_def)
  have ret: "fst (get_suppliers ex_self ex_store) = PRef 7"
    by (simp add: get_suppliers_def deepcopy_def ex_store_def ex_self_def)
  have same: "same_below (length ex_store) ex_store ex_mutated"
    by (simp add: same_below_def ex_mutated_def get_suppliers_def deepcopy_def ex_store_def
        ex_self_def)
  have own: "view 3 ex_store (PRef (suppliers_at ex_self)) = ex_view"
    by (simp add: ex_store_def ex_self_def ex_view_def eval_nat_numeral)
  have changed: "view 3 ex_mutated (PRef 7) =
     ListT [DictT [(''id'', Leaf (PStr ''S1'')), (''name'', Leaf (PStr ''renamed''))],
            DictT [(''id'', Leaf (PStr ''S1'')), (''name'', Leaf (PStr ''renamed''))]]"
    by (simp add: ex_mutated_def get_suppliers_def deepcopy_def ex_store_def ex_self_def
        eval_nat_numeral)
  from accessor_copies_isolated [OF wf r]
  have iso: "copy_isolated (get_suppliers ex_self) (suppliers_at ex_self) ex_store" by simp
  have first: "view 3 (snd (get_suppliers ex_self ex_store)) (fst (get_suppliers ex_self ex_store)) = ex_view"
    using iso own by (simp add: copy_isolated_def)
  have again: "view 3 (snd (get_suppliers ex_self ex_mutated)) (fst (get_suppliers ex_self ex_mutated)) =
      view 3 (snd (get_suppliers ex_self ex_store)) (fst (get_suppliers ex_self ex_store))"
    using iso same unfolding copy_isolated_def by blast
  from wf r ret same changed first again show ?thesis by simp
qed

end
